theory Spec2Isabelle
  imports Main
begin

section \<open>Python values\<close>

text \<open>
  A Python \<open>str\<close> is a sequence of Unicode code points, a \<open>bytes\<close> value a sequence of
  octets. The two types are kept apart, as Python 3 keeps them: a \<open>str\<close> never equals a
  \<open>bytes\<close>, and going from one to the other is an encoding step that can raise.
\<close>

type_synonym pystr = "nat list"
type_synonym bytes = "char list"

datatype exn =
  AttributeError
  | UnicodeEncodeError
  | UnboundLocalError
  | InvalidUsage
  | CookieError
  | UserError nat

text \<open>
  An awaited call returns a value, raises, or never resumes (the event it waits for is
  never delivered).
\<close>

datatype 'a outcome = Returns 'a | Raises exn | Suspends

definition obind :: "'a outcome \<Rightarrow> ('a \<Rightarrow> 'b outcome) \<Rightarrow> 'b outcome" where
  "obind r f = (case r of Returns x \<Rightarrow> f x | Raises e \<Rightarrow> Raises e | Suspends \<Rightarrow> Suspends)"

text \<open>A list comprehension whose element expression may raise: the first raise ends it.\<close>

fun collect :: "('a \<Rightarrow> 'b outcome) \<Rightarrow> 'a list \<Rightarrow> 'b list outcome" where
  "collect f [] = Returns []"
| "collect f (x # xs) =
     obind (f x) (\<lambda>y. obind (collect f xs) (\<lambda>ys. Returns (y # ys)))"

text \<open>A \<open>str\<close> literal of the source, written with the characters of its text.\<close>

definition lit :: "string \<Rightarrow> pystr" where
  "lit s = map of_char s"

text \<open>\<open>b.decode("latin-1")\<close>: every octet is the code point of the same number.\<close>

definition decode_latin1 :: "bytes \<Rightarrow> pystr" where
  "decode_latin1 b = map of_char b"

text \<open>
  \<open>s.encode("latin-1")\<close>: raises \<open>UnicodeEncodeError\<close> when \<open>s\<close> holds a code point
  above 255.
\<close>

definition latin1 :: "pystr \<Rightarrow> bool" where
  "latin1 s = list_all (\<lambda>c. c < 256) s"

definition encode_latin1 :: "pystr \<Rightarrow> bytes outcome" where
  "encode_latin1 s = (if latin1 s then Returns (map char_of s) else Raises UnicodeEncodeError)"

text \<open>
  \<open>s.encode("utf-8")\<close> with strict errors: a surrogate code point cannot be encoded.
  Numbers from \<open>0x110000\<close> on are no code points of a Python \<open>str\<close>.
\<close>

definition utf8_char :: "nat \<Rightarrow> nat list outcome" where
  "utf8_char c =
     (if c < 0x80 then Returns [c]
      else if c < 0x800 then Returns [0xC0 + c div 0x40, 0x80 + c mod 0x40]
      else if 0xD800 \<le> c \<and> c < 0xE000 then Raises UnicodeEncodeError
      else if c < 0x10000 then
        Returns [0xE0 + c div 0x1000, 0x80 + c div 0x40 mod 0x40, 0x80 + c mod 0x40]
      else if c < 0x110000 then
        Returns [0xF0 + c div 0x40000, 0x80 + c div 0x1000 mod 0x40,
                 0x80 + c div 0x40 mod 0x40, 0x80 + c mod 0x40]
      else Raises UnicodeEncodeError)"

definition encode_utf8 :: "pystr \<Rightarrow> bytes outcome" where
  "encode_utf8 s = obind (collect utf8_char s) (\<lambda>bs. Returns (map char_of (concat bs)))"

text \<open>\<open>str(n)\<close> of a non-negative integer: its decimal digits.\<close>

definition digit :: "nat \<Rightarrow> char" where
  "digit d = ''0123456789ABCDEF'' ! d"

fun digits :: "nat \<Rightarrow> string" where
  "digits n = (if n < 10 then [digit n] else digits (n div 10) @ [digit (n mod 10)])"

declare digits.simps [simp del]

definition str_nat :: "nat \<Rightarrow> pystr" where
  "str_nat n = lit (digits n)"

subsection \<open>\<open>urllib.parse.quote\<close>\<close>

text \<open>
  \<open>quote(string)\<close> with its default \<open>safe='/'\<close>: the empty string is returned as it is;
  any other is encoded as UTF-8, and every octet that is not a letter, a digit, one of
  \<open>_ . - ~\<close> or a safe character is replaced by \<open>%XX\<close>, two upper-case hexadecimal digits
  (the set of characters never quoted is that of Python 3.7 and later).
\<close>

definition always_safe :: "string" where
  "always_safe = ''ABCDEFGHIJKLMNOPQRSTUVWXYZabcdefghijklmnopqrstuvwxyz0123456789_.-~''"

definition quoter :: "string \<Rightarrow> char \<Rightarrow> string" where
  "quoter safe b =
     (if b \<in> set always_safe \<or> b \<in> set safe then [b]
      else [CHR ''%'', digit (of_char b div 16), digit (of_char b mod 16)])"

definition quote_from_bytes :: "bytes \<Rightarrow> string \<Rightarrow> pystr" where
  "quote_from_bytes bs safe = decode_latin1 (concat (map (quoter safe) bs))"

definition quote :: "pystr \<Rightarrow> pystr outcome" where
  "quote string =
     (if string = [] then Returns string
      else obind (encode_utf8 string) (\<lambda>bs. Returns (quote_from_bytes bs ''/'')))"

subsection \<open>\<open>multidict.CIMultiDict\<close>\<close>

text \<open>
  A case-insensitive multi-map: the pairs in insertion order, duplicate keys kept.
  \<open>get\<close> returns the value of the first pair whose key matches, \<open>in\<close> asks whether
  some pair's key matches. The adapter looks up \<open>expect\<close> and \<open>content-length\<close> only;
  a key matches such a name exactly when it is the name up to the case of its ASCII
  letters.
\<close>

type_synonym cimultidict = "(pystr \<times> pystr) list"

definition lower_ascii :: "nat \<Rightarrow> nat" where
  "lower_ascii c = (if 65 \<le> c \<and> c \<le> 90 then c + 32 else c)"

definition ci_eq :: "pystr \<Rightarrow> pystr \<Rightarrow> bool" where
  "ci_eq a b = (map lower_ascii a = map lower_ascii b)"

fun cimultidict_get :: "cimultidict \<Rightarrow> pystr \<Rightarrow> pystr option" where
  "cimultidict_get [] key = None"
| "cimultidict_get ((k, v) # items) key =
     (if ci_eq k key then Some v else cimultidict_get items key)"

definition cimultidict_contains :: "cimultidict \<Rightarrow> pystr \<Rightarrow> bool" where
  "cimultidict_contains items key = list_ex (\<lambda>item. ci_eq (fst item) key) items"

section \<open>The gateway channel\<close>

text \<open>
  The connection scope. Keys the adapter reads with \<open>scope[k]\<close> are fields; keys it
  reads with \<open>scope.get(k, default)\<close> may be absent.
\<close>

record scope =
  scope_type :: pystr
  scope_path :: pystr
  scope_query_string :: bytes
  scope_headers :: "(bytes \<times> bytes) list option"
  scope_method :: pystr
  scope_http_version :: pystr
  scope_root_path :: "pystr option"
  scope_server :: "(pystr \<times> nat) option"
  scope_scheme :: "pystr option"

text \<open>An inbound event: its \<open>type\<close>, and the \<open>body\<close> and \<open>more_body\<close> keys when present.\<close>

record message =
  msg_type :: pystr
  msg_body :: "bytes option"
  msg_more_body :: "bool option"

text \<open>The outbound events the adapter builds, by their \<open>type\<close>.\<close>

datatype event =
  LifespanStartupComplete
  | LifespanShutdownComplete
  | HttpResponseStart nat "(bytes \<times> bytes) list"
  | HttpResponseBody bytes bool
  | WebsocketAccept

section \<open>MockProtocol and MockTransport\<close>

text \<open>The two \<open>asyncio.Event\<close> flags of a \<open>MockProtocol\<close>.\<close>

record mock_protocol =
  p_not_paused :: bool
  p_complete :: bool

datatype websocket_connection = WebSocketConnection

text \<open>
  A \<open>MockTransport\<close> with the channel it wraps: \<open>inbox\<close> holds the events \<open>receive\<close>
  will deliver, in order, and \<open>sent\<close> the events given to \<open>send\<close> so far, in order
  (both are the server's callables; \<open>send\<close> takes every event it is given).
  The protocol is created on first use, the websocket connection attribute is set by
  \<open>create_websocket_connection\<close>.
\<close>

record mock_transport =
  t_scope :: scope
  inbox :: "message list"
  sent :: "event list"
  t_protocol :: "mock_protocol option"
  t_websocket_connection :: "websocket_connection option"

definition transport_send :: "event \<Rightarrow> mock_transport \<Rightarrow> mock_transport" where
  "transport_send data t = t\<lparr>sent := sent t @ [data]\<rparr>"

definition transport_receive :: "mock_transport \<Rightarrow> message outcome \<times> mock_transport" where
  "transport_receive t =
     (case inbox t of
        [] \<Rightarrow> (Suspends, t)
      | m # ms \<Rightarrow> (Returns m, t\<lparr>inbox := ms\<rparr>))"

definition the_protocol :: "mock_transport \<Rightarrow> mock_protocol" where
  "the_protocol t =
     (case t_protocol t of
        None \<Rightarrow> \<lparr>p_not_paused = True, p_complete = False\<rparr>
      | Some p \<Rightarrow> p)"

definition get_protocol :: "mock_transport \<Rightarrow> mock_transport" where
  "get_protocol t = t\<lparr>t_protocol := Some (the_protocol t)\<rparr>"

definition get_extra_info_peername :: "mock_transport \<Rightarrow> (pystr \<times> nat) option" where
  "get_extra_info_peername t = scope_server (t_scope t)"

definition get_extra_info_sslcontext :: "mock_transport \<Rightarrow> bool" where
  "get_extra_info_sslcontext t =
     (case scope_scheme (t_scope t) of
        None \<Rightarrow> False
      | Some s \<Rightarrow> s = lit ''https'' \<or> s = lit ''wss'')"

definition get_websocket_connection :: "mock_transport \<Rightarrow> websocket_connection outcome" where
  "get_websocket_connection t =
     (case t_websocket_connection t of
        None \<Rightarrow> Raises InvalidUsage
      | Some c \<Rightarrow> Returns c)"

definition create_websocket_connection :: "mock_transport \<Rightarrow> mock_transport" where
  "create_websocket_connection t = t\<lparr>t_websocket_connection := Some WebSocketConnection\<rparr>"

text \<open>
  The methods of the transport's protocol. A caller reaches the protocol through
  \<open>get_protocol\<close>, so each method reads and writes the protocol the transport holds.
\<close>

definition pause_writing :: "mock_transport \<Rightarrow> mock_transport" where
  "pause_writing t = t\<lparr>t_protocol := Some ((the_protocol t)\<lparr>p_not_paused := False\<rparr>)\<rparr>"

definition resume_writing :: "mock_transport \<Rightarrow> mock_transport" where
  "resume_writing t = t\<lparr>t_protocol := Some ((the_protocol t)\<lparr>p_not_paused := True\<rparr>)\<rparr>"

definition complete :: "mock_transport \<Rightarrow> mock_transport" where
  "complete t =
     transport_send (HttpResponseBody [] False)
       (t\<lparr>t_protocol := Some ((the_protocol t)\<lparr>p_not_paused := True\<rparr>)\<rparr>)"

definition is_complete :: "mock_transport \<Rightarrow> bool" where
  "is_complete t = p_complete (the_protocol t)"

definition push_data :: "bytes \<Rightarrow> mock_transport \<Rightarrow> mock_transport" where
  "push_data data t =
     (if \<not> is_complete t then transport_send (HttpResponseBody data True) t else t)"

definition drain :: "mock_transport \<Rightarrow> unit outcome" where
  "drain t = (if p_not_paused (the_protocol t) then Returns () else Suspends)"

section \<open>Requests and responses\<close>

text \<open>
  Modelled from the spec: the \<open>StreamBuffer\<close> of \<open>sanic.server\<close>, which is not among the
  sources: a bounded queue of chunks (an \<open>asyncio.Queue\<close> of the size the buffer is made
  with; size 0 is no bound). \<open>sb_queue\<close> holds what was put and is not yet read, in
  order; \<open>None\<close> is the end marker. \<open>put\<close> on a full queue waits until the reader has
  taken a chunk. The reader is the handler's task: no read happens inside
  \<open>stream_body\<close>, so there a \<open>put\<close> that finds the queue full never resumes.
\<close>

record stream_buffer =
  sb_queue :: "bytes option list"
  sb_maxsize :: nat

definition StreamBuffer :: "nat \<Rightarrow> stream_buffer" where
  "StreamBuffer buffer_size = \<lparr>sb_queue = [], sb_maxsize = buffer_size\<rparr>"

definition is_full :: "stream_buffer \<Rightarrow> bool" where
  "is_full s = (0 < sb_maxsize s \<and> sb_maxsize s \<le> length (sb_queue s))"

definition stream_put :: "bytes option \<Rightarrow> stream_buffer \<Rightarrow> unit outcome \<times> stream_buffer" where
  "stream_put payload s =
     (if is_full s then (Suspends, s)
      else (Returns (), s\<lparr>sb_queue := sb_queue s @ [payload]\<rparr>))"

text \<open>
  Modelled from the spec: the \<open>Request\<close> of \<open>sanic.request\<close>, which is not among the
  sources. It holds what its constructor is given (the transport and the application are
  those of the adapter that owns it), a body, empty until one is assigned, and a stream
  when one is attached.
\<close>

record request =
  req_url :: bytes
  req_headers :: cimultidict
  req_version :: pystr
  req_method :: pystr
  req_body :: bytes
  req_stream :: "stream_buffer option"

definition Request :: "bytes \<Rightarrow> cimultidict \<Rightarrow> pystr \<Rightarrow> pystr \<Rightarrow> request" where
  "Request url_bytes hdrs version method =
     \<lparr>req_url = url_bytes, req_headers = hdrs, req_version = version, req_method = method,
      req_body = [], req_stream = None\<rparr>"

text \<open>
  Modelled from the spec: the body-producing procedure of a streaming response
  (\<open>sanic.response\<close> is not among the sources), as the calls made on the protocol bound
  to the response while it runs, in order. Pausing and resuming are the transport
  layer's calls.
\<close>

datatype protocol_call = PushData bytes | Drain | PauseWriting | ResumeWriting

text \<open>
  Modelled from the spec: what the handler passes to the callback. \<open>HTTPResponse\<close> and
  \<open>StreamingHTTPResponse\<close> are those of \<open>sanic.response\<close>: status, headers (a
  case-insensitive multi-map of strings), cookies (each with the bytes its
  \<open>encode("utf-8")\<close> gives) and a buffered body or a body-producing procedure.
  \<open>NotAResponse\<close> is any object without a \<open>headers\<close> attribute.
\<close>

datatype response =
  HTTPResponse (status: nat) (headers: cimultidict) (cookies: "(pystr \<times> bytes) list")
    (body: bytes)
  | StreamingHTTPResponse (status: nat) (headers: cimultidict)
      (cookies: "(pystr \<times> bytes) list") (stream: "protocol_call list")
  | NotAResponse

definition is_streaming :: "response \<Rightarrow> bool" where
  "is_streaming response =
     (case response of StreamingHTTPResponse _ _ _ _ \<Rightarrow> True | _ \<Rightarrow> False)"

definition has_headers :: "response \<Rightarrow> bool" where
  "has_headers response = (case response of NotAResponse \<Rightarrow> False | _ \<Rightarrow> True)"

section \<open>The application\<close>

text \<open>
  Modelled from the spec: a lifecycle listener of the application. Calling it raises or
  returns; what it returns is awaitable or not, and awaiting it completes or raises.
  The log of an application records each call and each await, in order.
\<close>

datatype listener_response = NotAwaitable | Awaitable "exn option"

record listener =
  listener_id :: nat
  on_call :: "exn + listener_response"

datatype listener_event = Called nat | Awaited nat

datatype task = StreamBodyTask

text \<open>
  Modelled from the spec: the Sanic application, as far as the adapter uses it.
  \<open>listeners\<close> is a \<open>defaultdict(list)\<close>: every name has a list. \<open>error_handler_response\<close>
  is what \<open>error_handler.response(request, ServerError("Invalid response type"))\<close>
  returns. \<open>stream_buffer_size\<close> is the size \<open>StreamBuffer()\<close> gives its queue (the
  default of its constructor, which is in \<open>sanic.server\<close>). \<open>listener_log\<close> and
  \<open>loop_tasks\<close> record the listeners run and the tasks created on the application's loop.
\<close>

record sanic =
  listeners :: "pystr \<Rightarrow> listener list"
  is_request_stream :: bool
  stream_buffer_size :: nat
  error_handler_response :: "request \<Rightarrow> response"
  listener_log :: "listener_event list"
  loop_tasks :: "task list"

text \<open>An \<open>ASGIApp\<close> instance. \<open>request\<close> is \<open>None\<close> while the attribute is not set.\<close>

record asgi_app =
  sanic_app :: sanic
  transport :: mock_transport
  do_stream :: bool
  ws :: "websocket_connection option"
  request :: "request option"
  error_log :: "bytes list"

text \<open>Statements in sequence: the second runs on the state the first leaves, if it returns.\<close>

definition seq :: "'a outcome \<times> 's \<Rightarrow> ('a \<Rightarrow> 's \<Rightarrow> 'b outcome \<times> 's) \<Rightarrow> 'b outcome \<times> 's" where
  "seq r f =
     (case r of
        (Returns x, s) \<Rightarrow> f x s
      | (Raises e, s) \<Rightarrow> (Raises e, s)
      | (Suspends, s) \<Rightarrow> (Suspends, s))"

definition send :: "event \<Rightarrow> asgi_app \<Rightarrow> unit outcome \<times> asgi_app" where
  "send data self = (Returns (), self\<lparr>transport := transport_send data (transport self)\<rparr>)"

definition receive :: "asgi_app \<Rightarrow> message outcome \<times> asgi_app" where
  "receive self =
     (case transport_receive (transport self) of
        (r, t) \<Rightarrow> (r, self\<lparr>transport := t\<rparr>))"

section \<open>Lifespan\<close>

text \<open>
  The loop over a listener list: call the handler; if what it returns is awaitable,
  await it. A raise, in the call or in the await, leaves the loop.
\<close>

fun run_handlers :: "listener list \<Rightarrow> listener_event list \<Rightarrow> unit outcome \<times> listener_event list" where
  "run_handlers [] log = (Returns (), log)"
| "run_handlers (handler # handlers) log =
     (case on_call handler of
        Inl e \<Rightarrow> (Raises e, log @ [Called (listener_id handler)])
      | Inr NotAwaitable \<Rightarrow> run_handlers handlers (log @ [Called (listener_id handler)])
      | Inr (Awaitable None) \<Rightarrow>
          run_handlers handlers
            (log @ [Called (listener_id handler), Awaited (listener_id handler)])
      | Inr (Awaitable (Some e)) \<Rightarrow>
          (Raises e, log @ [Called (listener_id handler), Awaited (listener_id handler)]))"

definition for_handlers :: "pystr \<Rightarrow> asgi_app \<Rightarrow> unit outcome \<times> asgi_app" where
  "for_handlers name self =
     (case run_handlers (listeners (sanic_app self) name) (listener_log (sanic_app self)) of
        (r, log) \<Rightarrow> (r, self\<lparr>sanic_app := (sanic_app self)\<lparr>listener_log := log\<rparr>\<rparr>))"

definition pre_startup :: "asgi_app \<Rightarrow> unit outcome \<times> asgi_app" where
  "pre_startup self = for_handlers (lit ''before_server_start'') self"

definition startup :: "asgi_app \<Rightarrow> unit outcome \<times> asgi_app" where
  "startup self =
     seq (for_handlers (lit ''before_server_start'') self)
       (\<lambda>_ self. for_handlers (lit ''after_server_start'') self)"

definition shutdown :: "asgi_app \<Rightarrow> unit outcome \<times> asgi_app" where
  "shutdown self =
     seq (for_handlers (lit ''before_server_stop'') self)
       (\<lambda>_ self. for_handlers (lit ''after_server_stop'') self)"

text \<open>
  \<open>Lifespan.__call__\<close>, in its two halves: the first event, then the second. (The
  constructor of \<open>Lifespan\<close> only issues warnings.)
\<close>

definition lifespan_second :: "asgi_app \<Rightarrow> unit outcome \<times> asgi_app" where
  "lifespan_second self =
     seq (receive self)
       (\<lambda>message self.
          if msg_type message = lit ''lifespan.shutdown''
          then seq (shutdown self) (\<lambda>_ self. send LifespanShutdownComplete self)
          else (Returns (), self))"

definition lifespan_call :: "asgi_app \<Rightarrow> unit outcome \<times> asgi_app" where
  "lifespan_call self =
     seq (receive self)
       (\<lambda>message self.
          seq (if msg_type message = lit ''lifespan.startup''
               then seq (startup self) (\<lambda>_ self. send LifespanStartupComplete self)
               else (Returns (), self))
            (\<lambda>_ self. lifespan_second self))"

section \<open>ASGIApp\<close>

subsection \<open>\<open>create\<close>\<close>

definition decode_headers :: "(bytes \<times> bytes) list \<Rightarrow> cimultidict" where
  "decode_headers hs = map (\<lambda>item. (decode_latin1 (fst item), decode_latin1 (snd item))) hs"

definition scope_get_headers :: "scope \<Rightarrow> (bytes \<times> bytes) list" where
  "scope_get_headers scope = (case scope_headers scope of None \<Rightarrow> [] | Some hs \<Rightarrow> hs)"

definition scope_get_root_path :: "scope \<Rightarrow> pystr" where
  "scope_get_root_path scope = (case scope_root_path scope of None \<Rightarrow> [] | Some p \<Rightarrow> p)"

text \<open>The three statements that build \<open>url_bytes\<close>.\<close>

definition make_url_bytes :: "scope \<Rightarrow> bytes outcome" where
  "make_url_bytes scope =
     obind (quote (scope_path scope))
       (\<lambda>quoted. obind (encode_latin1 (scope_get_root_path scope @ quoted))
          (\<lambda>url_bytes. Returns (url_bytes @ ''?'' @ scope_query_string scope)))"

text \<open>
  Modelled from the spec: \<open>WebSocketConnection.accept\<close> of \<open>sanic.websocket\<close>, which is
  not among the sources: it accepts the connection with one outbound event.
\<close>

definition ws_accept :: "asgi_app \<Rightarrow> unit outcome \<times> asgi_app" where
  "ws_accept self = send WebsocketAccept self"

text \<open>
  The branch on the scope type. \<open>version\<close> and \<open>method\<close> are local variables, bound in
  the \<open>http\<close> and \<open>websocket\<close> branches only: \<open>None\<close> is a variable left unbound.
\<close>

definition bind_version_method ::
  "scope \<Rightarrow> asgi_app \<Rightarrow> (pystr option \<times> pystr option) outcome \<times> asgi_app" where
  "bind_version_method scope instance =
     (if scope_type scope = lit ''http''
      then (Returns (Some (scope_http_version scope), Some (scope_method scope)), instance)
      else if scope_type scope = lit ''websocket''
      then seq (ws_accept
                 (instance\<lparr>transport := create_websocket_connection (transport instance),
                           ws := Some WebSocketConnection\<rparr>))
             (\<lambda>_ instance. (Returns (Some (lit ''1.1''), Some (lit ''GET'')), instance))
      else (Returns (None, None), instance))"

definition construct_request ::
  "bytes \<Rightarrow> cimultidict \<Rightarrow> pystr option \<times> pystr option \<Rightarrow> asgi_app \<Rightarrow> unit outcome \<times> asgi_app" where
  "construct_request url_bytes hdrs locals instance =
     (case fst locals of
        None \<Rightarrow> (Raises UnboundLocalError, instance)
      | Some version \<Rightarrow>
          (case snd locals of
             None \<Rightarrow> (Raises UnboundLocalError, instance)
           | Some method \<Rightarrow>
               (let r = Request url_bytes hdrs version method;
                    r = (if is_request_stream (sanic_app instance)
                         then r\<lparr>req_stream :=
                                Some (StreamBuffer (stream_buffer_size (sanic_app instance)))\<rparr>
                         else r)
                in (Returns (), instance\<lparr>request := Some r\<rparr>))))"

definition create :: "sanic \<Rightarrow> scope \<Rightarrow> message list \<Rightarrow> unit outcome \<times> asgi_app" where
  "create app scope events =
     (let hdrs = decode_headers (scope_get_headers scope);
          instance =
            \<lparr>sanic_app = app,
             transport = \<lparr>t_scope = scope, inbox = events, sent = [], t_protocol = None,
                          t_websocket_connection = None\<rparr>,
             do_stream = (cimultidict_get hdrs (lit ''expect'') = Some (lit ''100-continue'')),
             ws = None, request = None, error_log = []\<rparr>
      in if scope_type scope = lit ''lifespan'' then lifespan_call instance
         else (case make_url_bytes scope of
                 Returns url_bytes \<Rightarrow>
                   seq (bind_version_method scope instance)
                     (construct_request url_bytes hdrs)
               | Raises e \<Rightarrow> (Raises e, instance)
               | Suspends \<Rightarrow> (Suspends, instance)))"

subsection \<open>\<open>read_body\<close> and \<open>stream_body\<close>\<close>

definition get_body :: "message \<Rightarrow> bytes" where
  "get_body m = (case msg_body m of None \<Rightarrow> [] | Some b \<Rightarrow> b)"

definition get_more_body :: "message \<Rightarrow> bool" where
  "get_more_body m = (case msg_more_body m of None \<Rightarrow> False | Some b \<Rightarrow> b)"

text \<open>
  The loop of \<open>read_body\<close>, over the events the channel holds: each turn receives one.
  When none is left the \<open>receive\<close> it awaits never resumes.
\<close>

fun read_body_loop :: "bytes \<Rightarrow> message list \<Rightarrow> bytes outcome \<times> message list" where
  "read_body_loop buf [] = (Suspends, [])"
| "read_body_loop buf (m # ms) =
     (if get_more_body m then read_body_loop (buf @ get_body m) ms
      else (Returns (buf @ get_body m), ms))"

definition read_body :: "asgi_app \<Rightarrow> bytes outcome \<times> asgi_app" where
  "read_body self =
     (case read_body_loop [] (inbox (transport self)) of
        (r, rest) \<Rightarrow> (r, self\<lparr>transport := (transport self)\<lparr>inbox := rest\<rparr>\<rparr>))"

text \<open>
  The loop of \<open>stream_body\<close>: each turn receives one event and puts its chunk. A \<open>put\<close>
  that never resumes leaves the loop waiting, the event already taken off the channel.
\<close>

fun stream_body_loop ::
  "stream_buffer \<Rightarrow> message list \<Rightarrow> unit outcome \<times> stream_buffer \<times> message list" where
  "stream_body_loop q [] = (Suspends, q, [])"
| "stream_body_loop q (m # ms) =
     (case stream_put (Some (get_body m)) q of
        (Returns _, q') \<Rightarrow>
          (if get_more_body m then stream_body_loop q' ms else (Returns (), q', ms))
      | (Raises e, q') \<Rightarrow> (Raises e, q', ms)
      | (Suspends, q') \<Rightarrow> (Suspends, q', ms))"

text \<open>
  \<open>stream_body\<close>. The first \<open>put\<close> comes after the first \<open>receive\<close>; it raises
  \<open>AttributeError\<close> when the instance has no request, or the request no stream. After
  the loop the end marker is put.
\<close>

definition set_stream :: "stream_buffer \<Rightarrow> message list \<Rightarrow> request \<Rightarrow> asgi_app \<Rightarrow> asgi_app" where
  "set_stream q rest r self =
     self\<lparr>transport := (transport self)\<lparr>inbox := rest\<rparr>,
          request := Some (r\<lparr>req_stream := Some q\<rparr>)\<rparr>"

definition stream_body :: "asgi_app \<Rightarrow> unit outcome \<times> asgi_app" where
  "stream_body self =
     (case inbox (transport self) of
        [] \<Rightarrow> (Suspends, self)
      | m # ms \<Rightarrow>
          (case request self of
             None \<Rightarrow> (Raises AttributeError, self\<lparr>transport := (transport self)\<lparr>inbox := ms\<rparr>\<rparr>)
           | Some r \<Rightarrow>
               (case req_stream r of
                  None \<Rightarrow>
                    (Raises AttributeError, self\<lparr>transport := (transport self)\<lparr>inbox := ms\<rparr>\<rparr>)
                | Some q \<Rightarrow>
                    (case stream_body_loop q (m # ms) of
                       (Returns _, q', rest) \<Rightarrow>
                         (case stream_put None q' of
                            (r', q'') \<Rightarrow> (r', set_stream q'' rest r self))
                     | (Raises e, q', rest) \<Rightarrow> (Raises e, set_stream q' rest r self)
                     | (Suspends, q', rest) \<Rightarrow> (Suspends, set_stream q' rest r self)))))"

subsection \<open>\<open>__call__\<close>\<close>

datatype callback = StreamCallback

definition create_task :: "task \<Rightarrow> asgi_app \<Rightarrow> asgi_app" where
  "create_task t self =
     self\<lparr>sanic_app := (sanic_app self)\<lparr>loop_tasks := loop_tasks (sanic_app self) @ [t]\<rparr>\<rparr>"

text \<open>
  \<open>__call__\<close>. \<open>handle_request\<close> is the application's entry point; it is given the
  request, the callback (none on a websocket connection) and the state it runs in.
\<close>

definition call ::
  "(request \<Rightarrow> callback option \<Rightarrow> asgi_app \<Rightarrow> unit outcome \<times> asgi_app) \<Rightarrow>
   asgi_app \<Rightarrow> unit outcome \<times> asgi_app" where
  "call handle_request self =
     seq (if \<not> do_stream self
          then seq (read_body self)
                 (\<lambda>buf self.
                    (case request self of
                       None \<Rightarrow> (Raises AttributeError, self)
                     | Some r \<Rightarrow> (Returns (), self\<lparr>request := Some (r\<lparr>req_body := buf\<rparr>)\<rparr>)))
          else (Returns (), create_task StreamBodyTask self))
       (\<lambda>_ self.
          (case request self of
             None \<Rightarrow> (Raises AttributeError, self)
           | Some r \<Rightarrow>
               handle_request r (if ws self \<noteq> None then None else Some StreamCallback) self))"

subsection \<open>\<open>stream_callback\<close>\<close>

text \<open>A value compared with \<open>==\<close>: a \<open>str\<close> and a \<open>bytes\<close> are never equal.\<close>

datatype pyobj = Str pystr | Bytes bytes

definition py_in :: "pyobj \<Rightarrow> pyobj list \<Rightarrow> bool" where
  "py_in x xs = list_ex (\<lambda>y. x = y) xs"

definition encode_header :: "pystr \<times> pystr \<Rightarrow> (bytes \<times> bytes) outcome" where
  "encode_header item =
     obind (encode_latin1 (fst item))
       (\<lambda>name. obind (encode_latin1 (snd item)) (\<lambda>value. Returns (name, value)))"

text \<open>The two list comprehensions over \<open>response.headers.items()\<close>.\<close>

definition encode_headers :: "cimultidict \<Rightarrow> (bytes \<times> bytes) list outcome" where
  "encode_headers items = collect encode_header items"

definition encode_headers_fallback :: "cimultidict \<Rightarrow> (bytes \<times> bytes) list outcome" where
  "encode_headers_fallback items =
     collect encode_header
       (filter (\<lambda>item. \<not> py_in (Str (fst item)) [Bytes ''Set-Cookie'']) items)"

text \<open>
  The body of a streaming response runs its calls on the transport's protocol; a
  \<open>drain\<close> while writing is paused never resumes.
\<close>

fun run_stream :: "protocol_call list \<Rightarrow> mock_transport \<Rightarrow> unit outcome \<times> mock_transport" where
  "run_stream [] t = (Returns (), t)"
| "run_stream (PushData data # cs) t = run_stream cs (push_data data t)"
| "run_stream (Drain # cs) t =
     (case drain t of
        Returns _ \<Rightarrow> run_stream cs t
      | Raises e \<Rightarrow> (Raises e, t)
      | Suspends \<Rightarrow> (Suspends, t))"
| "run_stream (PauseWriting # cs) t = run_stream cs (pause_writing t)"
| "run_stream (ResumeWriting # cs) t = run_stream cs (resume_writing t)"

text \<open>
  \<open>http.cookies.SimpleCookie.load\<close> of a mapping sets each of its keys in turn, and
  setting a key raises \<open>CookieError\<close> when the key, in lower case, is a reserved
  attribute name, or when it is not a non-empty string of legal characters (the
  reserved names are those of Python 3.8 to 3.13). The legal characters are ASCII, so a
  key on which the lower case of Python and that of ASCII letters differ is refused
  either way.
\<close>

definition legal_chars :: "string" where
  "legal_chars =
     ''abcdefghijklmnopqrstuvwxyzABCDEFGHIJKLMNOPQRSTUVWXYZ0123456789!#$%&''
     @ [CHR 0x27] @ ''*+-.^_'' @ [CHR 0x60] @ ''|~:''"

definition reserved :: "pystr list" where
  "reserved =
     map lit [''expires'', ''path'', ''comment'', ''domain'', ''max-age'', ''secure'',
              ''httponly'', ''version'', ''samesite'']"

definition is_legal_key :: "pystr \<Rightarrow> bool" where
  "is_legal_key key = (key \<noteq> [] \<and> list_all (\<lambda>c. c \<in> set (lit legal_chars)) key)"

definition morsel_set :: "pystr \<Rightarrow> unit outcome" where
  "morsel_set key =
     (if map lower_ascii key \<in> set reserved then Raises CookieError
      else if \<not> is_legal_key key then Raises CookieError
      else Returns ())"

definition simple_cookie_load :: "(pystr \<times> bytes) list \<Rightarrow> unit outcome" where
  "simple_cookie_load items =
     obind (collect (\<lambda>item. morsel_set (fst item)) items) (\<lambda>_. Returns ())"

text \<open>
  From the \<open>content-length\<close> test to the end of \<open>stream_callback\<close>. The \<open>SimpleCookie\<close>
  the cookies are loaded into is a local that is not read again: the \<open>set-cookie\<close>
  headers are built from \<open>response.cookies\<close> itself, once the load has returned.
\<close>

definition content_length_header :: "response \<Rightarrow> (bytes \<times> bytes) list outcome" where
  "content_length_header response =
     (if \<not> cimultidict_contains (headers response) (lit ''content-length'')
         \<and> \<not> is_streaming response
      then obind (encode_latin1 (str_nat (length (body response))))
             (\<lambda>n. Returns [(''content-length'', n)])
      else Returns [])"

definition cookie_headers :: "response \<Rightarrow> (bytes \<times> bytes) list outcome" where
  "cookie_headers response =
     (if cookies response \<noteq> []
      then obind (simple_cookie_load (cookies response))
             (\<lambda>_. Returns (map (\<lambda>item. (''set-cookie'', snd item)) (cookies response)))
      else Returns [])"

definition write_body :: "response \<Rightarrow> mock_transport \<Rightarrow> unit outcome \<times> mock_transport" where
  "write_body response t =
     (if is_streaming response
      then (case run_stream (stream response) (get_protocol t) of
              (Returns _, t') \<Rightarrow> (Returns (), complete t')
            | (Raises e, t') \<Rightarrow> (Raises e, t')
            | (Suspends, t') \<Rightarrow> (Suspends, t'))
      else (Returns (), transport_send (HttpResponseBody (body response) False) t))"

definition write_response ::
  "response \<Rightarrow> (bytes \<times> bytes) list \<Rightarrow> asgi_app \<Rightarrow> unit outcome \<times> asgi_app" where
  "write_response response hdrs self =
     (case obind (content_length_header response)
             (\<lambda>cl. obind (cookie_headers response) (\<lambda>ck. Returns (hdrs @ cl @ ck))) of
        Returns all_headers \<Rightarrow>
          (case write_body response
                  (transport_send (HttpResponseStart (status response) all_headers)
                     (transport self)) of
             (r, t) \<Rightarrow> (r, self\<lparr>transport := t\<rparr>))
      | Raises e \<Rightarrow> (Raises e, self)
      | Suspends \<Rightarrow> (Suspends, self))"

definition stream_callback :: "response \<Rightarrow> asgi_app \<Rightarrow> unit outcome \<times> asgi_app" where
  "stream_callback response self =
     (if has_headers response
      then (case encode_headers (headers response) of
              Returns hs \<Rightarrow> write_response response hs self
            | Raises e \<Rightarrow> (Raises e, self)
            | Suspends \<Rightarrow> (Suspends, self))
      else (case request self of
              None \<Rightarrow> (Raises AttributeError, self)
            | Some r \<Rightarrow>
                (let logged = self\<lparr>error_log := error_log self @ [req_url r]\<rparr>;
                     substitute = error_handler_response (sanic_app self) r
                 in if has_headers substitute
                    then (case encode_headers_fallback (headers substitute) of
                            Returns hs \<Rightarrow> write_response substitute hs logged
                          | Raises e \<Rightarrow> (Raises e, logged)
                          | Suspends \<Rightarrow> (Suspends, logged))
                    else (Raises AttributeError, logged))))"

section \<open>Notions of the specification\<close>

text \<open>
  A finite sequence of inbound body events that ends with an event whose \<open>more_body\<close>
  is false; the events of a sequence that body ingestion consumes (up to and including
  the first that reports no more body), and those it leaves on the channel.
\<close>

definition ends_body :: "message list \<Rightarrow> bool" where
  "ends_body evs = (evs \<noteq> [] \<and> \<not> get_more_body (last evs))"

definition consumed :: "message list \<Rightarrow> message list" where
  "consumed evs = takeWhile get_more_body evs @ take 1 (dropWhile get_more_body evs)"

definition unconsumed :: "message list \<Rightarrow> message list" where
  "unconsumed evs = drop 1 (dropWhile get_more_body evs)"

text \<open>
  What a listener raises when it is run (in the call, or in the await of what the call
  returned), if anything; the calls and awaits running it adds to the log; the
  listeners of startup, in the order the specification gives; an instance with events
  added to the log.
\<close>

definition listener_raises :: "listener \<Rightarrow> exn option" where
  "listener_raises l =
     (case on_call l of
        Inl e \<Rightarrow> Some e
      | Inr NotAwaitable \<Rightarrow> None
      | Inr (Awaitable r) \<Rightarrow> r)"

definition listener_events :: "listener \<Rightarrow> listener_event list" where
  "listener_events l =
     (case on_call l of
        Inl e \<Rightarrow> [Called (listener_id l)]
      | Inr NotAwaitable \<Rightarrow> [Called (listener_id l)]
      | Inr (Awaitable r) \<Rightarrow> [Called (listener_id l), Awaited (listener_id l)])"

definition startup_listeners :: "asgi_app \<Rightarrow> listener list" where
  "startup_listeners self =
     listeners (sanic_app self) (lit ''before_server_start'')
     @ listeners (sanic_app self) (lit ''after_server_start'')"

definition logged :: "asgi_app \<Rightarrow> listener_event list \<Rightarrow> asgi_app" where
  "logged self evs =
     self\<lparr>sanic_app := (sanic_app self)\<lparr>listener_log := listener_log (sanic_app self) @ evs\<rparr>\<rparr>"

text \<open>
  A stream that has room for \<open>n\<close> more items: with nothing read meanwhile, none of the
  next \<open>n\<close> puts finds it full.
\<close>

definition has_room :: "stream_buffer \<Rightarrow> nat \<Rightarrow> bool" where
  "has_room s n = (sb_maxsize s = 0 \<or> length (sb_queue s) + n \<le> sb_maxsize s)"

text \<open>
  A header map contains a key with a value: one of its entries has that key, up to
  case, and that value.
\<close>

definition header_map_contains :: "cimultidict \<Rightarrow> pystr \<Rightarrow> pystr \<Rightarrow> bool" where
  "header_map_contains items key val =
     list_ex (\<lambda>item. ci_eq (fst item) key \<and> snd item = val) items"

text \<open>
  The first header named \<open>expect\<close>, among the scope's headers as the gateway gives them,
  has the value \<open>100-continue\<close>: the name is compared ignoring the case of ASCII
  letters, the value exactly.
\<close>

definition lower_byte :: "char \<Rightarrow> char" where
  "lower_byte c =
     (if 65 \<le> (of_char c :: nat) \<and> (of_char c :: nat) \<le> 90 then char_of (of_char c + 32 :: nat)
      else c)"

definition expect_100_continue :: "(bytes \<times> bytes) list \<Rightarrow> bool" where
  "expect_100_continue hs =
     (case find (\<lambda>item. map lower_byte (fst item) = ''expect'') hs of
        None \<Rightarrow> False
      | Some item \<Rightarrow> snd item = ''100-continue'')"

text \<open>
  A string that has a UTF-8 encoding (code points, none a surrogate), its UTF-8 octets,
  and the percent-encoding of a path: each octet of its UTF-8 encoding that is not
  unreserved (an ASCII letter, a digit, or one of \<open>- . _ ~\<close>) and not \<open>/\<close> is replaced
  by \<open>%\<close> and its two upper-case hexadecimal digits.
\<close>

definition encodable_utf8 :: "pystr \<Rightarrow> bool" where
  "encodable_utf8 s = list_all (\<lambda>c. c < 0x110000 \<and> \<not> (0xD800 \<le> c \<and> c < 0xE000)) s"

definition utf8_octets :: "nat \<Rightarrow> nat list" where
  "utf8_octets c = (case utf8_char c of Returns bs \<Rightarrow> bs | Raises e \<Rightarrow> [] | Suspends \<Rightarrow> [])"

definition utf8_bytes :: "pystr \<Rightarrow> bytes" where
  "utf8_bytes s = map char_of (concat (map utf8_octets s))"

definition unreserved :: "char \<Rightarrow> bool" where
  "unreserved c =
     (let n = (of_char c :: nat)
      in (65 \<le> n \<and> n \<le> 90) \<or> (97 \<le> n \<and> n \<le> 122) \<or> (48 \<le> n \<and> n \<le> 57)
         \<or> n = 45 \<or> n = 46 \<or> n = 95 \<or> n = 126)"

definition percent_octet :: "char \<Rightarrow> bytes" where
  "percent_octet c =
     (if unreserved c \<or> c = CHR ''/'' then [c]
      else [CHR ''%'', digit (of_char c div 16), digit (of_char c mod 16)])"

definition percent_encode :: "pystr \<Rightarrow> bytes" where
  "percent_encode s = concat (map percent_octet (utf8_bytes s))"

text \<open>The instance as \<open>create\<close> sets it up before it looks at the scope type.\<close>

definition initial_instance :: "sanic \<Rightarrow> scope \<Rightarrow> message list \<Rightarrow> asgi_app" where
  "initial_instance app scope events =
     \<lparr>sanic_app = app,
      transport = \<lparr>t_scope = scope, inbox = events, sent = [], t_protocol = None,
                   t_websocket_connection = None\<rparr>,
      do_stream = expect_100_continue (scope_get_headers scope),
      ws = None, request = None, error_log = []\<rparr>"

text \<open>
  A cookie name \<open>SimpleCookie\<close> accepts: a non-empty string of legal characters that is
  not, up to case, the name of a cookie attribute. Cookies whose names are all accepted.
\<close>

definition cookie_name_ok :: "pystr \<Rightarrow> bool" where
  "cookie_name_ok key = (is_legal_key key \<and> map lower_ascii key \<notin> set reserved)"

definition cookies_accepted :: "(pystr \<times> bytes) list \<Rightarrow> bool" where
  "cookies_accepted items = list_all (\<lambda>item. cookie_name_ok (fst item)) items"

text \<open>
  Headers whose names and values are Latin-1 text, and their Latin-1 encoding; the
  number a string of decimal digits denotes; the chunks a body-producing procedure
  pushes, in order.
\<close>

definition encodable_headers :: "cimultidict \<Rightarrow> bool" where
  "encodable_headers items = list_all (\<lambda>item. latin1 (fst item) \<and> latin1 (snd item)) items"

definition encoded_headers :: "cimultidict \<Rightarrow> (bytes \<times> bytes) list" where
  "encoded_headers items = map (\<lambda>item. (map char_of (fst item), map char_of (snd item))) items"

definition decimal_value :: "string \<Rightarrow> nat" where
  "decimal_value s = foldl (\<lambda>a c. 10 * a + (of_char c - 48)) 0 s"

definition pushed :: "protocol_call list \<Rightarrow> bytes list" where
  "pushed calls = concat (map (\<lambda>c. case c of PushData d \<Rightarrow> [d] | _ \<Rightarrow> []) calls)"

section \<open>Example inputs\<close>

definition example_app :: sanic where
  "example_app =
     \<lparr>listeners = (\<lambda>name. []), is_request_stream = True, stream_buffer_size = 100,
      error_handler_response =
        (\<lambda>r. HTTPResponse 500 [(lit ''Set-Cookie'', lit ''k=v'')] [] ''Error''),
      listener_log = [], loop_tasks = []\<rparr>"

definition example_scope :: scope where
  "example_scope =
     \<lparr>scope_type = lit ''http'', scope_path = lit ''/a b'' @ [233], scope_query_string = ''x=1'',
      scope_headers = Some [(''Host'', ''example'')], scope_method = lit ''POST'',
      scope_http_version = lit ''1.1'', scope_root_path = None, scope_server = None,
      scope_scheme = None\<rparr>"

definition example_request :: request where
  "example_request =
     (Request ''/a%20b%C3%A9?x=1'' [(lit ''Host'', lit ''example'')] (lit ''1.1'') (lit ''POST''))
       \<lparr>req_stream := Some (StreamBuffer 100)\<rparr>"

definition example_instance :: "message list \<Rightarrow> asgi_app" where
  "example_instance events =
     \<lparr>sanic_app = example_app,
      transport = \<lparr>t_scope = example_scope, inbox = events, sent = [], t_protocol = None,
                   t_websocket_connection = None\<rparr>,
      do_stream = False, ws = None, request = Some example_request, error_log = []\<rparr>"




definition example_events :: "message list" where
  "example_events =
     [\<lparr>msg_type = lit ''http.request'', msg_body = Some ''ab'', msg_more_body = Some True\<rparr>,
      \<lparr>msg_type = lit ''http.request'', msg_body = Some ''cd'', msg_more_body = None\<rparr>]"

text \<open>A handler that records the body of the request it is given.\<close>

definition example_handler :: "request \<Rightarrow> callback option \<Rightarrow> asgi_app \<Rightarrow> unit outcome \<times> asgi_app" where
  "example_handler r cb s = (Returns (), s\<lparr>error_log := [req_body r]\<rparr>)"

definition example_listener :: "nat \<Rightarrow> exn + listener_response \<Rightarrow> listener" where
  "example_listener n r = \<lparr>listener_id = n, on_call = r\<rparr>"

definition lifespan_instance :: "exn + listener_response \<Rightarrow> asgi_app" where
  "lifespan_instance r =
     (example_instance
        [\<lparr>msg_type = lit ''lifespan.startup'', msg_body = None, msg_more_body = None\<rparr>])
       \<lparr>sanic_app := example_app
          \<lparr>listeners :=
             (\<lambda>name. if name = lit ''before_server_start''
                     then [example_listener 1 r, example_listener 2 (Inr (Awaitable None))]
                     else if name = lit ''after_server_start''
                     then [example_listener 3 (Inr NotAwaitable)]
                     else [])\<rparr>,
        request := None\<rparr>"

section \<open>Basic facts\<close>

lemma char_of_eq_iff_nat: "(char_of (n::nat) = c) = (n mod 256 = of_char c)"
proof
  assume "char_of n = c"
  then have "of_char (char_of n) = (of_char c :: nat)" by simp
  then show "n mod 256 = of_char c" by simp
next
  assume h: "n mod 256 = of_char c"
  have "char_of n = char_of (n mod 256)" by (simp only: char_of_mod_256)
  then show "char_of n = c" using h by simp
qed

lemma obind_simps [simp]:
  "obind (Returns x) f = f x"
  "obind (Raises e) f = Raises e"
  "obind Suspends f = Suspends"
  by (simp_all add: obind_def)

lemma seq_simps [simp]:
  "seq (Returns x, s) f = f x s"
  "seq (Raises e, s) f = (Raises e, s)"
  "seq (Suspends, s) f = (Suspends, s)"
  by (simp_all add: seq_def)

lemma inj_of_char_nat: "inj (of_char :: char \<Rightarrow> nat)"
  by (rule injI) simp

lemma lit_eq_iff [simp]: "(lit a = lit b) = (a = b)"
  by (simp add: lit_def inj_map_eq_map[OF inj_of_char_nat])

section \<open>Body ingestion\<close>

lemma ends_body_has_last: "ends_body evs \<Longrightarrow> list_ex (\<lambda>m. \<not> get_more_body m) evs"
  by (auto simp: ends_body_def list_ex_iff intro: bexI[of _ "last evs"])

lemma consumed_Cons:
  "consumed (m # ms) = (if get_more_body m then m # consumed ms else [m])"
  by (simp add: consumed_def)

lemma unconsumed_Cons:
  "unconsumed (m # ms) = (if get_more_body m then unconsumed ms else ms)"
  by (simp add: unconsumed_def)

lemma consumed_unconsumed: "consumed evs @ unconsumed evs = evs"
  by (induction evs) (simp_all add: consumed_Cons unconsumed_Cons consumed_def unconsumed_def)

lemma consumed_shape:
  "list_ex (\<lambda>m. \<not> get_more_body m) evs \<Longrightarrow>
     consumed evs \<noteq> [] \<and> list_all get_more_body (butlast (consumed evs))
     \<and> \<not> get_more_body (last (consumed evs))"
  by (induction evs) (auto simp: consumed_Cons)

lemma read_body_loop_eq:
  "list_ex (\<lambda>m. \<not> get_more_body m) evs \<Longrightarrow>
     read_body_loop buf evs =
       (Returns (buf @ concat (map get_body (consumed evs))), unconsumed evs)"
  by (induction evs arbitrary: buf) (auto simp: consumed_Cons unconsumed_Cons)

lemma stream_put_room:
  "has_room q (Suc n) \<Longrightarrow>
     stream_put x q = (Returns (), q\<lparr>sb_queue := sb_queue q @ [x]\<rparr>)
     \<and> has_room (q\<lparr>sb_queue := sb_queue q @ [x]\<rparr>) n"
  by (auto simp: has_room_def stream_put_def is_full_def)

lemma stream_put_full: "\<not> has_room q (Suc 0) \<Longrightarrow> stream_put x q = (Suspends, q)"
  by (auto simp: has_room_def stream_put_def is_full_def)

lemma stream_body_loop_eq:
  "list_ex (\<lambda>m. \<not> get_more_body m) evs \<Longrightarrow> has_room q (length (consumed evs)) \<Longrightarrow>
     stream_body_loop q evs =
       (Returns (), q\<lparr>sb_queue := sb_queue q @ map (\<lambda>m. Some (get_body m)) (consumed evs)\<rparr>,
        unconsumed evs)"
proof (induction evs arbitrary: q)
  case Nil
  then show ?case by simp
next
  case (Cons m ms)
  show ?case
  proof (cases "get_more_body m")
    case True
    then have room: "has_room q (Suc (length (consumed ms)))"
      using Cons.prems(2) by (simp add: consumed_Cons)
    have ex: "list_ex (\<lambda>m. \<not> get_more_body m) ms"
      using Cons.prems(1) True by simp
    show ?thesis
      using True stream_put_room[OF room, of "Some (get_body m)"]
        Cons.IH[OF ex, of "q\<lparr>sb_queue := sb_queue q @ [Some (get_body m)]\<rparr>"]
      by (simp add: consumed_Cons unconsumed_Cons)
  next
    case False
    then have room: "has_room q (Suc 0)"
      using Cons.prems(2) by (simp add: consumed_Cons)
    show ?thesis
      using False stream_put_room[OF room, of "Some (get_body m)"]
      by (simp add: consumed_Cons unconsumed_Cons)
  qed
qed

lemma stream_body_loop_full:
  "list_ex (\<lambda>m. \<not> get_more_body m) evs \<Longrightarrow> \<not> has_room q (length (consumed evs)) \<Longrightarrow>
     fst (stream_body_loop q evs) = Suspends"
proof (induction evs arbitrary: q)
  case Nil
  then show ?case by simp
next
  case (Cons m ms)
  show ?case
  proof (cases "has_room q (Suc 0)")
    case False
    then show ?thesis by (simp add: stream_put_full)
  next
    case True
    then have more: "get_more_body m"
      using Cons.prems(2) by (auto simp: consumed_Cons split: if_splits)
    then have ex: "list_ex (\<lambda>m. \<not> get_more_body m) ms"
      using Cons.prems(1) by simp
    have "\<not> has_room (q\<lparr>sb_queue := sb_queue q @ [Some (get_body m)]\<rparr>) (length (consumed ms))"
      using Cons.prems(2) more by (auto simp: has_room_def consumed_Cons)
    then have "fst (stream_body_loop (q\<lparr>sb_queue := sb_queue q @ [Some (get_body m)]\<rparr>) ms)
        = Suspends"
      by (rule Cons.IH[OF ex])
    then show ?thesis
      using more stream_put_room[OF True, of "Some (get_body m)"] by simp
  qed
qed

text \<open>
  Claim C5. On an instance with a request and \<open>do_stream\<close> false, whose channel holds a
  finite sequence of body events ending with one whose \<open>more_body\<close> is false,
  \<open>read_body\<close> returns the concatenation of the \<open>body\<close> fields of the events it
  consumes, in delivery order, and leaves the others on the channel; \<open>__call__\<close> assigns
  that buffer to the request's body and then invokes the handler, once, with that
  request. The consumed events are a prefix of the sequence: all but the last report
  more body, the last does not.
\<close>

theorem read_body_concatenates:
  assumes "\<not> do_stream self" and "request self = Some r"
    and "ends_body (inbox (transport self))"
  shows "read_body self =
           (Returns (concat (map get_body (consumed (inbox (transport self))))),
            self\<lparr>transport := (transport self)\<lparr>inbox := unconsumed (inbox (transport self))\<rparr>\<rparr>)
         \<and> call handle_request self =
             handle_request
               (r\<lparr>req_body := concat (map get_body (consumed (inbox (transport self))))\<rparr>)
               (if ws self \<noteq> None then None else Some StreamCallback)
               (self\<lparr>transport := (transport self)\<lparr>inbox := unconsumed (inbox (transport self))\<rparr>,
                     request := Some (r\<lparr>req_body :=
                       concat (map get_body (consumed (inbox (transport self))))\<rparr>)\<rparr>)
         \<and> consumed (inbox (transport self)) @ unconsumed (inbox (transport self))
             = inbox (transport self)
         \<and> list_all get_more_body (butlast (consumed (inbox (transport self))))
         \<and> \<not> get_more_body (last (consumed (inbox (transport self))))"
proof -
  let ?evs = "inbox (transport self)"
  have ex: "list_ex (\<lambda>m. \<not> get_more_body m) ?evs"
    using assms(3) by (rule ends_body_has_last)
  have rb: "read_body self =
           (Returns (concat (map get_body (consumed ?evs))),
            self\<lparr>transport := (transport self)\<lparr>inbox := unconsumed ?evs\<rparr>\<rparr>)"
    by (simp add: read_body_def read_body_loop_eq[OF ex])
  have c: "call handle_request self =
             handle_request (r\<lparr>req_body := concat (map get_body (consumed ?evs))\<rparr>)
               (if ws self \<noteq> None then None else Some StreamCallback)
               (self\<lparr>transport := (transport self)\<lparr>inbox := unconsumed ?evs\<rparr>,
                     request := Some (r\<lparr>req_body := concat (map get_body (consumed ?evs))\<rparr>)\<rparr>)"
    using assms(1,2) by (simp add: call_def rb)
  show ?thesis
    using rb c consumed_unconsumed[of ?evs] consumed_shape[OF ex] by simp
qed

theorem read_body_concatenates_witness:
  "\<not> do_stream (example_instance example_events)
   \<and> request (example_instance example_events) = Some example_request
   \<and> ends_body (inbox (transport (example_instance example_events)))
   \<and> fst (read_body (example_instance example_events)) = Returns ''abcd''
   \<and> inbox (transport (snd (read_body (example_instance example_events)))) = []
   \<and> call example_handler (example_instance example_events)
       = (Returns (),
          (example_instance [])\<lparr>request := Some (example_request\<lparr>req_body := ''abcd''\<rparr>),
                                error_log := [''abcd'']\<rparr>)"
  using read_body_concatenates [of "example_instance example_events" example_request
      example_handler]
  by (simp add: example_instance_def example_events_def example_handler_def ends_body_def
        consumed_def unconsumed_def get_more_body_def get_body_def)


text \<open>
  Claim C10. For an inbound body event at any turn of either loop: an absent \<open>body\<close>
  is read as the empty chunk (the event does what the same event with an empty body
  does: nothing is added to the buffer of \<open>read_body\<close>, and the chunk \<open>stream_body\<close>
  puts is the empty one); an absent \<open>more_body\<close> is read as false, so the loop ends
  with that event, the events after it staying on the channel. In \<open>stream_body\<close> the
  event's chunk is put unless the stream is full, where the put waits. The last two
  equations state both for \<open>read_body\<close> and \<open>stream_body\<close> themselves on an event with
  neither key.
\<close>

theorem absent_body_and_more_body:
  "read_body_loop buf (m\<lparr>msg_body := None\<rparr> # ms)
     = read_body_loop buf (m\<lparr>msg_body := Some []\<rparr> # ms)
   \<and> stream_body_loop q (m\<lparr>msg_body := None\<rparr> # ms)
     = stream_body_loop q (m\<lparr>msg_body := Some []\<rparr> # ms)
   \<and> read_body_loop buf (m\<lparr>msg_more_body := None\<rparr> # ms) = (Returns (buf @ get_body m), ms)
   \<and> stream_body_loop q (m\<lparr>msg_more_body := None\<rparr> # ms)
     = (if is_full q then (Suspends, q, ms)
        else (Returns (), q\<lparr>sb_queue := sb_queue q @ [Some (get_body m)]\<rparr>, ms))
   \<and> read_body_loop buf (m\<lparr>msg_body := None, msg_more_body := None\<rparr> # ms) = (Returns buf, ms)
   \<and> stream_body_loop q (m\<lparr>msg_body := None, msg_more_body := None\<rparr> # ms)
     = (if is_full q then (Suspends, q, ms)
        else (Returns (), q\<lparr>sb_queue := sb_queue q @ [Some []]\<rparr>, ms))
   \<and> read_body
       (self\<lparr>transport := (transport self)
          \<lparr>inbox := m\<lparr>msg_body := None, msg_more_body := None\<rparr> # ms\<rparr>\<rparr>)
     = (Returns [], self\<lparr>transport := (transport self)\<lparr>inbox := ms\<rparr>\<rparr>)
   \<and> stream_body
       (self\<lparr>transport := (transport self)
                \<lparr>inbox := m\<lparr>msg_body := None, msg_more_body := None\<rparr> # ms\<rparr>,
             request := Some (r\<lparr>req_stream := Some q\<rparr>)\<rparr>)
     = (if is_full q
        then (Suspends,
              self\<lparr>transport := (transport self)\<lparr>inbox := ms\<rparr>,
                   request := Some (r\<lparr>req_stream := Some q\<rparr>)\<rparr>)
        else if is_full (q\<lparr>sb_queue := sb_queue q @ [Some []]\<rparr>)
        then (Suspends,
              self\<lparr>transport := (transport self)\<lparr>inbox := ms\<rparr>,
                   request := Some (r\<lparr>req_stream :=
                     Some (q\<lparr>sb_queue := sb_queue q @ [Some []]\<rparr>)\<rparr>)\<rparr>)
        else (Returns (),
              self\<lparr>transport := (transport self)\<lparr>inbox := ms\<rparr>,
                   request := Some (r\<lparr>req_stream :=
                     Some (q\<lparr>sb_queue := sb_queue q @ [Some [], None]\<rparr>)\<rparr>)\<rparr>))"
  by (simp add: get_body_def get_more_body_def read_body_def stream_body_def stream_put_def
        set_stream_def)

section \<open>Lifespan startup\<close>

lemma run_handlers_ok:
  "list_all (\<lambda>l. listener_raises l = None) hs \<Longrightarrow>
     run_handlers hs log = (Returns (), log @ concat (map listener_events hs))"
  by (induction hs arbitrary: log)
     (auto simp: listener_raises_def listener_events_def split: sum.splits listener_response.splits)

lemma run_handlers_raise:
  "list_all (\<lambda>l. listener_raises l = None) pre \<Longrightarrow> listener_raises l = Some e \<Longrightarrow>
     run_handlers (pre @ l # post) log = (Raises e, log @ concat (map listener_events (pre @ [l])))"
  by (induction pre arbitrary: log)
     (auto simp: listener_raises_def listener_events_def split: sum.splits listener_response.splits option.splits)

lemma run_handlers_append:
  "run_handlers (xs @ ys) log =
     (case run_handlers xs log of
        (Returns u, log') \<Rightarrow> run_handlers ys log'
      | (Raises e, log') \<Rightarrow> (Raises e, log')
      | (Suspends, log') \<Rightarrow> (Suspends, log'))"
  by (induction xs arbitrary: log)
     (auto split: sum.splits listener_response.splits option.splits)

lemma startup_eq:
  "startup self =
     (case run_handlers (startup_listeners self) (listener_log (sanic_app self)) of
        (r, log) \<Rightarrow> (r, self\<lparr>sanic_app := (sanic_app self)\<lparr>listener_log := log\<rparr>\<rparr>))"
  by (simp add: startup_def for_handlers_def startup_listeners_def run_handlers_append seq_def
        split: prod.splits outcome.splits)

text \<open>
  Claim C7. On a \<open>lifespan.startup\<close> event: if no startup listener raises, \<open>startup\<close>
  runs every \<open>before_server_start\<close> listener in registration order, then every
  \<open>after_server_start\<close> listener in registration order, each call followed by its
  await when it returned an awaitable, and \<open>lifespan.startup.complete\<close> is sent after
  that, before the second event is awaited. If a listener raises, after listeners that
  did not, the log holds the listeners before it and itself and nothing of those after
  it, the error is raised out of \<open>startup\<close> and of \<open>Lifespan.__call__\<close>, and nothing is
  sent.
\<close>

theorem startup_runs_listeners_in_order:
  assumes "inbox (transport self) = m # ms" and "msg_type m = lit ''lifespan.startup''"
  shows "(list_all (\<lambda>l. listener_raises l = None) (startup_listeners self) \<longrightarrow>
            startup self
              = (Returns (), logged self (concat (map listener_events (startup_listeners self))))
            \<and> lifespan_call self
              = lifespan_second
                  ((logged self (concat (map listener_events (startup_listeners self))))
                     \<lparr>transport := (transport self)
                        \<lparr>inbox := ms, sent := sent (transport self) @ [LifespanStartupComplete]\<rparr>\<rparr>))
         \<and> (startup_listeners self = pre @ l # post
            \<and> list_all (\<lambda>l. listener_raises l = None) pre \<and> listener_raises l = Some e \<longrightarrow>
            startup self = (Raises e, logged self (concat (map listener_events (pre @ [l]))))
            \<and> lifespan_call self
              = (Raises e,
                 (logged self (concat (map listener_events (pre @ [l]))))
                   \<lparr>transport := (transport self)\<lparr>inbox := ms\<rparr>\<rparr>))"
proof (intro conjI impI)
  let ?self' = "self\<lparr>transport := (transport self)\<lparr>inbox := ms\<rparr>\<rparr>"
  have rc: "receive self = (Returns m, ?self')"
    using assms(1) by (simp add: receive_def transport_receive_def)
  have sl: "startup_listeners ?self' = startup_listeners self"
    by (simp add: startup_listeners_def)
  {
    assume ok: "list_all (\<lambda>l. listener_raises l = None) (startup_listeners self)"
    show "startup self
            = (Returns (), logged self (concat (map listener_events (startup_listeners self))))"
      by (simp add: startup_eq run_handlers_ok[OF ok] logged_def)
    have "startup ?self'
            = (Returns (), logged ?self' (concat (map listener_events (startup_listeners self))))"
      using ok by (simp add: startup_eq sl run_handlers_ok logged_def)
    then show "lifespan_call self
              = lifespan_second
                  ((logged self (concat (map listener_events (startup_listeners self))))
                     \<lparr>transport := (transport self)
                        \<lparr>inbox := ms, sent := sent (transport self) @ [LifespanStartupComplete]\<rparr>\<rparr>)"
      using assms(2) by (simp add: lifespan_call_def rc send_def transport_send_def logged_def)
  }
  {
    assume h: "startup_listeners self = pre @ l # post
            \<and> list_all (\<lambda>l. listener_raises l = None) pre \<and> listener_raises l = Some e"
    then have rh: "\<And>log. run_handlers (startup_listeners self) log
        = (Raises e, log @ concat (map listener_events (pre @ [l])))"
      using run_handlers_raise[of pre l e post] by simp
    show "startup self = (Raises e, logged self (concat (map listener_events (pre @ [l]))))"
      by (simp only: startup_eq rh logged_def prod.case)
    have "startup ?self' = (Raises e, logged ?self' (concat (map listener_events (pre @ [l]))))"
      by (simp only: startup_eq sl rh logged_def prod.case)
    then show "lifespan_call self
              = (Raises e,
                 (logged self (concat (map listener_events (pre @ [l]))))
                   \<lparr>transport := (transport self)\<lparr>inbox := ms\<rparr>\<rparr>)"
      using assms(2) by (simp add: lifespan_call_def rc logged_def)
  }
qed

theorem startup_runs_listeners_in_order_witness:
  "list_all (\<lambda>l. listener_raises l = None) (startup_listeners (lifespan_instance (Inr NotAwaitable)))
   \<and> startup (lifespan_instance (Inr NotAwaitable))
       = (Returns (),
          logged (lifespan_instance (Inr NotAwaitable)) [Called 1, Called 2, Awaited 2, Called 3])
   \<and> lifespan_call (lifespan_instance (Inr NotAwaitable))
       = (Suspends,
          (logged (lifespan_instance (Inr NotAwaitable)) [Called 1, Called 2, Awaited 2, Called 3])
            \<lparr>transport := (transport (lifespan_instance (Inr NotAwaitable)))
               \<lparr>inbox := [], sent := [LifespanStartupComplete]\<rparr>\<rparr>)
   \<and> listener_raises (example_listener 1 (Inl (UserError 7))) = Some (UserError 7)
   \<and> startup (lifespan_instance (Inl (UserError 7)))
       = (Raises (UserError 7), logged (lifespan_instance (Inl (UserError 7))) [Called 1])
   \<and> lifespan_call (lifespan_instance (Inl (UserError 7)))
       = (Raises (UserError 7),
          (logged (lifespan_instance (Inl (UserError 7))) [Called 1])
            \<lparr>transport := (transport (lifespan_instance (Inl (UserError 7))))
               \<lparr>inbox := [], sent := []\<rparr>\<rparr>)"
  using startup_runs_listeners_in_order
      [of "lifespan_instance (Inr NotAwaitable)"
          "\<lparr>msg_type = lit ''lifespan.startup'', msg_body = None, msg_more_body = None\<rparr>" "[]"
          "[]" "example_listener 1 (Inr NotAwaitable)" "[]" "UserError 0"]
    startup_runs_listeners_in_order
      [of "lifespan_instance (Inl (UserError 7))"
          "\<lparr>msg_type = lit ''lifespan.startup'', msg_body = None, msg_more_body = None\<rparr>" "[]"
          "[]" "example_listener 1 (Inl (UserError 7))"
          "[example_listener 2 (Inr (Awaitable None)), example_listener 3 (Inr NotAwaitable)]"
          "UserError 7"]
  by (simp add: lifespan_instance_def example_instance_def example_app_def example_listener_def
        startup_listeners_def listener_raises_def listener_events_def logged_def
        lifespan_second_def receive_def transport_receive_def)

section \<open>Streaming or buffered ingestion\<close>

lemma of_char_lower_byte: "of_char (lower_byte c) = lower_ascii (of_char c)"
  by (simp add: lower_byte_def lower_ascii_def)

lemma decode_latin1_eq_iff [simp]: "(decode_latin1 a = lit b) = (a = b)"
  by (simp add: decode_latin1_def lit_def inj_map_eq_map[OF inj_of_char_nat])

lemma ci_eq_decode_expect:
  "ci_eq (decode_latin1 k) (lit ''expect'') = (map lower_byte k = ''expect'')"
proof -
  have "map lower_ascii (decode_latin1 k) = decode_latin1 (map lower_byte k)"
    by (simp add: decode_latin1_def of_char_lower_byte)
  moreover have "map lower_ascii (lit ''expect'') = lit ''expect''"
    by (simp add: lit_def lower_ascii_def)
  ultimately show ?thesis
    by (simp add: ci_eq_def)
qed

lemma get_expect_decoded:
  "(cimultidict_get (decode_headers hs) (lit ''expect'') = Some (lit ''100-continue''))
     = expect_100_continue hs"
  by (induction hs)
     (auto simp: decode_headers_def expect_100_continue_def ci_eq_decode_expect)

lemma do_stream_seq:
  "(\<And>x s. do_stream (snd (f x s)) = do_stream s) \<Longrightarrow>
     do_stream (snd (seq r f)) = do_stream (snd r)"
  by (cases r) (auto simp: seq_def split: outcome.splits)

lemma do_stream_for_handlers [simp]: "do_stream (snd (for_handlers n s)) = do_stream s"
  by (simp add: for_handlers_def split: prod.splits)

lemma do_stream_receive [simp]: "do_stream (snd (receive s)) = do_stream s"
  by (simp add: receive_def split: prod.splits)

lemma do_stream_send [simp]: "do_stream (snd (send e s)) = do_stream s"
  by (simp add: send_def)

lemma do_stream_startup [simp]: "do_stream (snd (startup s)) = do_stream s"
  by (simp add: startup_def do_stream_seq)

lemma do_stream_shutdown [simp]: "do_stream (snd (shutdown s)) = do_stream s"
  by (simp add: shutdown_def do_stream_seq)

lemma do_stream_lifespan_second [simp]: "do_stream (snd (lifespan_second s)) = do_stream s"
  by (simp add: lifespan_second_def do_stream_seq)

lemma do_stream_lifespan_call [simp]: "do_stream (snd (lifespan_call s)) = do_stream s"
  by (simp add: lifespan_call_def do_stream_seq)

lemma do_stream_bind_version_method [simp]:
  "do_stream (snd (bind_version_method scope s)) = do_stream s"
  by (simp add: bind_version_method_def ws_accept_def do_stream_seq)

lemma do_stream_construct_request [simp]:
  "do_stream (snd (construct_request u h locals s)) = do_stream s"
  by (simp add: construct_request_def Let_def split: option.splits)

lemma do_stream_create:
  "do_stream (snd (create app scope events))
     = (cimultidict_get (decode_headers (scope_get_headers scope)) (lit ''expect'')
          = Some (lit ''100-continue''))"
  by (simp add: create_def Let_def do_stream_seq split: outcome.splits)

lemma expect_implies_contains:
  "expect_100_continue hs \<Longrightarrow>
     header_map_contains (decode_headers hs) (lit ''expect'') (lit ''100-continue'')"
  by (induction hs)
     (auto simp: expect_100_continue_def header_map_contains_def decode_headers_def
        ci_eq_decode_expect split: if_splits)

lemma contains_implies_expect:
  "length (filter (\<lambda>item. map lower_byte (fst item) = ''expect'') hs) \<le> 1 \<Longrightarrow>
     header_map_contains (decode_headers hs) (lit ''expect'') (lit ''100-continue'') \<Longrightarrow>
     expect_100_continue hs"
proof (induction hs)
  case Nil
  then show ?case by (simp add: header_map_contains_def decode_headers_def)
next
  case (Cons h hs)
  show ?case
  proof (cases "map lower_byte (fst h) = ''expect''")
    case True
    then have "filter (\<lambda>item. map lower_byte (fst item) = ''expect'') hs = []"
      using Cons.prems(1) by simp
    then have none: "\<not> list_ex (\<lambda>item. map lower_byte (fst item) = ''expect'') hs"
      by (simp add: filter_empty_conv list_ex_iff)
    have "\<not> header_map_contains (decode_headers hs) (lit ''expect'') (lit ''100-continue'')"
      using none
      by (auto simp: header_map_contains_def decode_headers_def list_ex_iff ci_eq_decode_expect)
    then show ?thesis
      using Cons.prems(2) True
      by (auto simp: header_map_contains_def decode_headers_def expect_100_continue_def
            ci_eq_decode_expect)
  next
    case False
    then have "expect_100_continue hs"
      using Cons.prems Cons.IH
      by (auto simp: header_map_contains_def decode_headers_def ci_eq_decode_expect)
    then show ?thesis
      using False by (simp add: expect_100_continue_def)
  qed
qed

text \<open>
  Claim C9, amended. For every scope, the \<open>do_stream\<close> flag of the instance \<open>create\<close>
  builds (whatever \<open>create\<close> goes on to do) is true exactly when the first header named
  \<open>expect\<close>, the one the decoded header map's lookup gives, has the value
  \<open>100-continue\<close>, stated here on the scope's raw headers. The map then contains the
  key \<open>expect\<close> with that value, and when at most one header is named \<open>expect\<close> the
  flag is true exactly when the map contains it.
  \<open>__call__\<close> follows the flag: when it is true, \<open>stream_body\<close> is scheduled as a task
  and the handler is invoked at once, nothing having been read; when it is false, the
  handler is invoked with the request carrying the buffer \<open>read_body\<close> returned, on the
  state \<open>read_body\<close> left, and no task is scheduled.
\<close>

theorem do_stream_iff_expect:
  "do_stream (snd (create app scope events)) = expect_100_continue (scope_get_headers scope)
   \<and> (do_stream (snd (create app scope events)) \<longrightarrow>
        header_map_contains (decode_headers (scope_get_headers scope)) (lit ''expect'')
          (lit ''100-continue''))
   \<and> (length (filter (\<lambda>item. map lower_byte (fst item) = ''expect'')
                 (scope_get_headers scope)) \<le> 1 \<longrightarrow>
        do_stream (snd (create app scope events))
          = header_map_contains (decode_headers (scope_get_headers scope)) (lit ''expect'')
              (lit ''100-continue''))
   \<and> (do_stream self \<and> request self = Some r \<longrightarrow>
        call handle_request self
          = handle_request r (if ws self \<noteq> None then None else Some StreamCallback)
              (create_task StreamBodyTask self))
   \<and> (\<not> do_stream self \<and> request self = Some r \<and> read_body self = (Returns buf, self') \<longrightarrow>
        call handle_request self
          = handle_request (r\<lparr>req_body := buf\<rparr>)
              (if ws self \<noteq> None then None else Some StreamCallback)
              (self'\<lparr>request := Some (r\<lparr>req_body := buf\<rparr>)\<rparr>))"
proof (intro conjI impI)
  show ds: "do_stream (snd (create app scope events))
      = expect_100_continue (scope_get_headers scope)"
    by (simp add: do_stream_create get_expect_decoded)
  {
    assume "do_stream (snd (create app scope events))"
    then show "header_map_contains (decode_headers (scope_get_headers scope)) (lit ''expect'')
          (lit ''100-continue'')"
      by (simp add: ds expect_implies_contains)
  }
  {
    assume "length (filter (\<lambda>item. map lower_byte (fst item) = ''expect'')
                 (scope_get_headers scope)) \<le> 1"
    then show "do_stream (snd (create app scope events))
          = header_map_contains (decode_headers (scope_get_headers scope)) (lit ''expect'')
              (lit ''100-continue'')"
      using contains_implies_expect expect_implies_contains by (auto simp: ds)
  }
next
  assume "do_stream self \<and> request self = Some r"
  then show "call handle_request self
          = handle_request r (if ws self \<noteq> None then None else Some StreamCallback)
              (create_task StreamBodyTask self)"
    by (simp add: call_def create_task_def)
next
  assume h: "\<not> do_stream self \<and> request self = Some r \<and> read_body self = (Returns buf, self')"
  then have "self' = self\<lparr>transport := transport self'\<rparr>"
    by (auto simp: read_body_def split: prod.splits)
  then have "request self' = Some r" "ws self' = ws self"
    using h by (metis asgi_app.select_convs asgi_app.surjective asgi_app.update_convs)+
  then show "call handle_request self
          = handle_request (r\<lparr>req_body := buf\<rparr>)
              (if ws self \<noteq> None then None else Some StreamCallback)
              (self'\<lparr>request := Some (r\<lparr>req_body := buf\<rparr>)\<rparr>)"
    using h by (simp add: call_def)
qed

theorem do_stream_iff_expect_witness:
  "do_stream (snd (create example_app
      (example_scope\<lparr>scope_headers := Some [(''Host'', ''h''), (''Expect'', ''100-continue'')]\<rparr>) []))
   \<and> header_map_contains (decode_headers [(''Host'', ''h''), (''Expect'', ''100-continue'')])
        (lit ''expect'') (lit ''100-continue'')
   \<and> length (filter (\<lambda>item. map lower_byte (fst item) = ''expect'')
         [(''Host'', ''h''), (''Expect'', ''100-continue'')]) \<le> 1
   \<and> \<not> do_stream (snd (create example_app example_scope []))
   \<and> do_stream ((example_instance example_events)\<lparr>do_stream := True\<rparr>)
   \<and> call example_handler ((example_instance example_events)\<lparr>do_stream := True\<rparr>)
       = (Returns (),
          (example_instance example_events)
            \<lparr>sanic_app := example_app\<lparr>loop_tasks := [StreamBodyTask]\<rparr>,
             do_stream := True, error_log := [[]]\<rparr>)
   \<and> \<not> do_stream (example_instance example_events)
   \<and> read_body (example_instance example_events) = (Returns ''abcd'', example_instance [])
   \<and> call example_handler (example_instance example_events)
       = (Returns (),
          (example_instance [])\<lparr>request := Some (example_request\<lparr>req_body := ''abcd''\<rparr>),
                                error_log := [''abcd'']\<rparr>)"
  using do_stream_iff_expect
      [of example_app
          "example_scope\<lparr>scope_headers := Some [(''Host'', ''h''), (''Expect'', ''100-continue'')]\<rparr>"
          "[]" "(example_instance example_events)\<lparr>do_stream := True\<rparr>" example_request
          example_handler "[]" "example_instance []"]
    do_stream_iff_expect
      [of example_app example_scope "[]" "example_instance example_events" example_request
          example_handler "''abcd''" "example_instance []"]
  by (simp add: example_instance_def example_events_def example_handler_def example_scope_def
        example_app_def example_request_def Request_def create_task_def
        scope_get_headers_def expect_100_continue_def lower_byte_def char_of_eq_iff_nat
        read_body_def get_more_body_def get_body_def)

text \<open>
  Claim C9 as stated fails: with the two headers \<open>expect: x\<close> and
  \<open>Expect: 100-continue\<close>, in this order, the decoded header map contains the key
  \<open>expect\<close> with the value \<open>100-continue\<close>, and \<open>do_stream\<close> is false: the lookup gives
  the first value, \<open>x\<close>.
\<close>

theorem do_stream_iff_expect_counterexample:
  "header_map_contains
      (decode_headers (scope_get_headers
         (example_scope\<lparr>scope_headers := Some [(''expect'', ''x''), (''Expect'', ''100-continue'')]\<rparr>)))
      (lit ''expect'') (lit ''100-continue'')
   \<and> \<not> do_stream (snd (create example_app
        (example_scope\<lparr>scope_headers := Some [(''expect'', ''x''), (''Expect'', ''100-continue'')]\<rparr>)
        []))"
  by (simp add: do_stream_create get_expect_decoded scope_get_headers_def
        header_map_contains_def decode_headers_def ci_eq_decode_expect expect_100_continue_def
        lower_byte_def char_of_eq_iff_nat)

section \<open>Construction of the adapter\<close>

lemma latin1_append [simp]: "latin1 (a @ b) = (latin1 a \<and> latin1 b)"
  by (simp add: latin1_def)

lemma latin1_decode [simp]: "latin1 (decode_latin1 b)"
  by (simp add: latin1_def decode_latin1_def list_all_iff)

lemma char_of_decode [simp]: "map char_of (decode_latin1 b) = b"
  by (simp add: decode_latin1_def comp_def)

lemma utf8_char_ok:
  "c < 0x110000 \<and> \<not> (0xD800 \<le> c \<and> c < 0xE000) \<Longrightarrow> utf8_char c = Returns (utf8_octets c)"
  by (auto simp: utf8_octets_def utf8_char_def)

lemma collect_utf8_ok:
  "encodable_utf8 s \<Longrightarrow> collect utf8_char s = Returns (map utf8_octets s)"
  by (induction s) (simp_all add: encodable_utf8_def utf8_char_ok)

lemma collect_utf8_bad:
  "\<not> encodable_utf8 s \<Longrightarrow> collect utf8_char s = Raises UnicodeEncodeError"
proof (induction s)
  case Nil
  then show ?case by (simp add: encodable_utf8_def)
next
  case (Cons c s)
  show ?case
  proof (cases "c < 0x110000 \<and> \<not> (0xD800 \<le> c \<and> c < 0xE000)")
    case True
    then have "\<not> encodable_utf8 s" using Cons.prems by (simp add: encodable_utf8_def)
    then have "collect utf8_char s = Raises UnicodeEncodeError" by (rule Cons.IH)
    then show ?thesis by (simp add: utf8_char_ok[OF True])
  next
    case False
    then have "utf8_char c = Raises UnicodeEncodeError" by (auto simp: utf8_char_def)
    then show ?thesis by simp
  qed
qed

lemma always_safe_unreserved: "(c \<in> set always_safe) = unreserved c"
proof
  assume "c \<in> set always_safe"
  then show "unreserved c"
    by (auto simp: always_safe_def unreserved_def)
next
  assume u: "unreserved c"
  define n where "n = (of_char c :: nat)"
  have c: "c = char_of n" by (simp add: n_def)
  from u have "n \<in> {65..<91} \<or> n \<in> {97..<123} \<or> n \<in> {48..<58}
      \<or> n = 45 \<or> n = 46 \<or> n = 95 \<or> n = 126"
    by (auto simp: unreserved_def Let_def n_def)
  then have "n \<in> set [65..<91] \<or> n \<in> set [97..<123] \<or> n \<in> set [48..<58]
      \<or> n = 45 \<or> n = 46 \<or> n = 95 \<or> n = 126"
    by (simp only: atLeastLessThan_upt)
  then show "c \<in> set always_safe"
    unfolding c by (auto simp: upt_rec always_safe_def char_of_eq_iff_nat)
qed

lemma quoter_slash: "quoter ''/'' = percent_octet"
  by (rule ext) (simp add: quoter_def percent_octet_def always_safe_unreserved)

lemma quote_ok: "encodable_utf8 s \<Longrightarrow> quote s = Returns (decode_latin1 (percent_encode s))"
  by (simp add: quote_def encode_utf8_def collect_utf8_ok quote_from_bytes_def percent_encode_def
        utf8_bytes_def decode_latin1_def quoter_slash)

lemma quote_bad: "\<not> encodable_utf8 s \<Longrightarrow> quote s = Raises UnicodeEncodeError"
  by (auto simp: quote_def encode_utf8_def collect_utf8_bad encodable_utf8_def)

lemma make_url_bytes_ok:
  "latin1 (scope_get_root_path scope) \<Longrightarrow> encodable_utf8 (scope_path scope) \<Longrightarrow>
     make_url_bytes scope =
       Returns (map char_of (scope_get_root_path scope) @ percent_encode (scope_path scope)
                @ ''?'' @ scope_query_string scope)"
  by (simp add: make_url_bytes_def quote_ok encode_latin1_def)

lemma make_url_bytes_bad:
  "\<not> (latin1 (scope_get_root_path scope) \<and> encodable_utf8 (scope_path scope)) \<Longrightarrow>
     make_url_bytes scope = Raises UnicodeEncodeError"
  by (cases "encodable_utf8 (scope_path scope)")
     (auto simp: make_url_bytes_def quote_ok quote_bad encode_latin1_def)

lemma create_initial:
  "scope_type scope \<noteq> lit ''lifespan'' \<Longrightarrow>
     create app scope events =
       (case make_url_bytes scope of
          Returns url_bytes \<Rightarrow>
            seq (bind_version_method scope (initial_instance app scope events))
              (construct_request url_bytes (decode_headers (scope_get_headers scope)))
        | Raises e \<Rightarrow> (Raises e, initial_instance app scope events)
        | Suspends \<Rightarrow> (Suspends, initial_instance app scope events))"
  by (simp add: create_def Let_def initial_instance_def get_expect_decoded split: outcome.splits)

text \<open>
  Claim C8, amended. For every scope of type \<open>http\<close> whose \<open>root_path\<close> is Latin-1 text
  and whose \<open>path\<close> has a UTF-8 encoding, \<open>create\<close> returns and the instance holds a
  request whose method is the scope's \<open>method\<close>, whose version is the scope's
  \<open>http_version\<close>, and whose URL bytes are \<open>root_path\<close> (empty when absent), then the
  percent-encoded \<open>path\<close>, then \<open>?\<close>, then the bytes of \<open>query_string\<close> as they are.
\<close>

theorem http_request_fields:
  assumes "scope_type scope = lit ''http''"
    and "latin1 (scope_get_root_path scope)" and "encodable_utf8 (scope_path scope)"
  shows "fst (create app scope events) = Returns ()
         \<and> (case request (snd (create app scope events)) of
               None \<Rightarrow> False
             | Some r \<Rightarrow>
                 req_method r = scope_method scope
                 \<and> req_version r = scope_http_version scope
                 \<and> req_url r =
                     map char_of (scope_get_root_path scope) @ percent_encode (scope_path scope)
                     @ ''?'' @ scope_query_string scope)"
  using assms
  by (simp add: create_initial make_url_bytes_ok bind_version_method_def construct_request_def
        Let_def Request_def)

text \<open>
  Claim C3 against the code. For every scope whose type is none of \<open>http\<close>,
  \<open>websocket\<close> and \<open>lifespan\<close>, \<open>create\<close> raises: the branch for such a type binds
  neither \<open>version\<close> nor \<open>method\<close>, and the construction of the request that follows
  reads them (\<open>UnboundLocalError\<close>), unless building the URL has raised before. No
  request is set, and nothing is sent.
\<close>

theorem create_unknown_scope_type_raises:
  assumes "scope_type scope \<noteq> lit ''http''" and "scope_type scope \<noteq> lit ''websocket''"
    and "scope_type scope \<noteq> lit ''lifespan''"
  shows "create app scope events =
           (Raises (if latin1 (scope_get_root_path scope) \<and> encodable_utf8 (scope_path scope)
                    then UnboundLocalError else UnicodeEncodeError),
            initial_instance app scope events)"
proof (cases "latin1 (scope_get_root_path scope) \<and> encodable_utf8 (scope_path scope)")
  case True
  then show ?thesis
    using assms
    by (simp add: create_initial make_url_bytes_ok bind_version_method_def construct_request_def)
next
  case False
  then show ?thesis
    using assms make_url_bytes_bad[OF False] by (simp add: create_initial)
qed

lemma decode_latin1_lit: "decode_latin1 b = lit b"
  by (simp add: decode_latin1_def lit_def)

lemma latin1_lit [simp]: "latin1 (lit s)"
  by (simp add: latin1_def lit_def list_all_iff)

lemma encodable_utf8_append [simp]:
  "encodable_utf8 (a @ b) = (encodable_utf8 a \<and> encodable_utf8 b)"
  by (simp add: encodable_utf8_def)

lemma encodable_utf8_lit [simp]: "encodable_utf8 (lit s)"
proof -
  {
    fix c :: char
    have "(of_char c :: nat) < 256" by simp
    then have "(of_char c :: nat) < 1114112
        \<and> \<not> (55296 \<le> (of_char c :: nat) \<and> (of_char c :: nat) < 57344)"
      by linarith
  }
  then show ?thesis
    by (simp add: encodable_utf8_def lit_def list_all_iff)
qed

lemma encodable_utf8_simps [simp]:
  "encodable_utf8 [] = True"
  "encodable_utf8 (c # s) = (c < 0x110000 \<and> \<not> (0xD800 \<le> c \<and> c < 0xE000) \<and> encodable_utf8 s)"
  by (simp_all add: encodable_utf8_def)

lemma latin1_simps [simp]:
  "latin1 [] = True"
  "latin1 (c # s) = (c < 256 \<and> latin1 s)"
  by (simp_all add: latin1_def)

lemma percent_encode_example: "percent_encode (lit ''/a b'' @ [233]) = ''/a%20b%C3%A9''"
  by (simp add: percent_encode_def utf8_bytes_def utf8_octets_def utf8_char_def lit_def
        percent_octet_def unreserved_def digit_def char_of_eq_iff_nat)

theorem http_request_fields_witness:
  "scope_type example_scope = lit ''http''
   \<and> latin1 (scope_get_root_path example_scope)
   \<and> encodable_utf8 (scope_path example_scope)
   \<and> create example_app example_scope [] = (Returns (), example_instance [])
   \<and> request (example_instance []) = Some example_request
   \<and> req_method example_request = lit ''POST''
   \<and> req_version example_request = lit ''1.1''
   \<and> req_url example_request = ''/a%20b%C3%A9?x=1''"
proof -
  have c: "create example_app example_scope [] = (Returns (), example_instance [])"
    by (simp add: create_initial make_url_bytes_ok bind_version_method_def construct_request_def
        Let_def example_scope_def example_app_def example_instance_def example_request_def
        initial_instance_def scope_get_root_path_def scope_get_headers_def
        percent_encode_example expect_100_continue_def lower_byte_def
        decode_headers_def char_of_eq_iff_nat decode_latin1_lit)
  show ?thesis
    using http_request_fields [of example_scope example_app "[]"]
    by (simp add: c) (simp add: example_instance_def example_request_def Request_def
        example_scope_def scope_get_root_path_def percent_encode_example)
qed

text \<open>
  Claim C8 as stated fails: for a scope of type \<open>http\<close> whose \<open>root_path\<close> is the one
  character U+20AC, encoding the URL raises \<open>UnicodeEncodeError\<close> out of \<open>create\<close>, and
  no request is constructed.
\<close>

theorem http_request_fields_counterexample:
  "scope_type (example_scope\<lparr>scope_root_path := Some [8364]\<rparr>) = lit ''http''
   \<and> create example_app (example_scope\<lparr>scope_root_path := Some [8364]\<rparr>) []
       = (Raises UnicodeEncodeError,
          initial_instance example_app (example_scope\<lparr>scope_root_path := Some [8364]\<rparr>) [])
   \<and> request (initial_instance example_app (example_scope\<lparr>scope_root_path := Some [8364]\<rparr>) [])
       = None"
proof -
  have "\<not> (latin1 (scope_get_root_path (example_scope\<lparr>scope_root_path := Some [8364]\<rparr>))
          \<and> encodable_utf8 (scope_path (example_scope\<lparr>scope_root_path := Some [8364]\<rparr>)))"
    by (simp add: scope_get_root_path_def)
  then have "make_url_bytes (example_scope\<lparr>scope_root_path := Some [8364]\<rparr>)
               = Raises UnicodeEncodeError"
    by (rule make_url_bytes_bad)
  then show ?thesis
    by (simp add: create_initial initial_instance_def example_scope_def)
qed

theorem create_unknown_scope_type_raises_witness:
  "scope_type (example_scope\<lparr>scope_type := lit ''foo''\<rparr>) \<noteq> lit ''http''
   \<and> scope_type (example_scope\<lparr>scope_type := lit ''foo''\<rparr>) \<noteq> lit ''websocket''
   \<and> scope_type (example_scope\<lparr>scope_type := lit ''foo''\<rparr>) \<noteq> lit ''lifespan''
   \<and> create example_app (example_scope\<lparr>scope_type := lit ''foo''\<rparr>) []
       = (Raises UnboundLocalError,
          initial_instance example_app (example_scope\<lparr>scope_type := lit ''foo''\<rparr>) [])
   \<and> request (initial_instance example_app (example_scope\<lparr>scope_type := lit ''foo''\<rparr>) [])
       = None"
  using create_unknown_scope_type_raises
      [of "example_scope\<lparr>scope_type := lit ''foo''\<rparr>" example_app "[]"]
  by (simp add: example_scope_def scope_get_root_path_def initial_instance_def)

section \<open>Response serialization\<close>

lemma encode_header_ok:
  "latin1 (fst item) \<and> latin1 (snd item) \<Longrightarrow>
     encode_header item = Returns (map char_of (fst item), map char_of (snd item))"
  by (simp add: encode_header_def encode_latin1_def)

lemma encode_header_bad:
  "\<not> (latin1 (fst item) \<and> latin1 (snd item)) \<Longrightarrow> encode_header item = Raises UnicodeEncodeError"
  by (auto simp: encode_header_def encode_latin1_def)

lemma encode_headers_ok:
  "encodable_headers items \<Longrightarrow> encode_headers items = Returns (encoded_headers items)"
  unfolding encode_headers_def
  by (induction items) (simp_all add: encodable_headers_def encoded_headers_def encode_header_ok)

lemma encode_headers_bad:
  "\<not> encodable_headers items \<Longrightarrow> encode_headers items = Raises UnicodeEncodeError"
  unfolding encode_headers_def
proof (induction items)
  case Nil
  then show ?case by (simp add: encodable_headers_def)
next
  case (Cons item items)
  show ?case
  proof (cases "latin1 (fst item) \<and> latin1 (snd item)")
    case True
    then have "\<not> encodable_headers items" using Cons.prems by (simp add: encodable_headers_def)
    then have "collect encode_header items = Raises UnicodeEncodeError" by (rule Cons.IH)
    then show ?thesis by (simp add: encode_header_ok[OF True])
  next
    case False
    then show ?thesis by (simp add: encode_header_bad)
  qed
qed

lemma encode_headers_fallback_eq: "encode_headers_fallback items = encode_headers items"
  by (simp add: encode_headers_fallback_def encode_headers_def py_in_def)

lemma encode_latin1_lit [simp]: "encode_latin1 (lit b) = Returns b"
  using latin1_lit[of b] by (simp add: encode_latin1_def lit_def comp_def)

lemma encode_str_nat: "encode_latin1 (str_nat n) = Returns (digits n)"
  by (simp add: str_nat_def)

lemma of_char_digit: "d < 10 \<Longrightarrow> of_char (digit d) = 48 + d"
proof -
  assume "d < 10"
  then have "d \<in> set [0..<10]" by simp
  then show ?thesis by (auto simp: digit_def upt_rec)
qed

lemma decimal_value_append:
  "decimal_value (s @ [c]) = 10 * decimal_value s + (of_char c - 48)"
  by (simp add: decimal_value_def)

lemma decimal_value_digits: "decimal_value (digits n) = n"
proof (induction n rule: digits.induct)
  case (1 n)
  show ?case
  proof (cases "n < 10")
    case True
    then show ?thesis
      by (subst digits.simps) (simp add: decimal_value_def of_char_digit)
  next
    case False
    then have "decimal_value (digits (n div 10)) = n div 10" by (rule 1)
    then show ?thesis
      using False
      by (subst digits.simps) (simp add: decimal_value_append of_char_digit)
  qed
qed

lemma morsel_set_ok: "cookie_name_ok key \<Longrightarrow> morsel_set key = Returns ()"
  by (simp add: morsel_set_def cookie_name_ok_def)

lemma morsel_set_bad: "\<not> cookie_name_ok key \<Longrightarrow> morsel_set key = Raises CookieError"
  by (auto simp: morsel_set_def cookie_name_ok_def)

lemma simple_cookie_load_ok: "cookies_accepted items \<Longrightarrow> simple_cookie_load items = Returns ()"
proof -
  have "cookies_accepted items \<Longrightarrow>
      collect (\<lambda>item. morsel_set (fst item)) items = Returns (map (\<lambda>item. ()) items)"
    by (induction items) (simp_all add: cookies_accepted_def morsel_set_ok)
  then show "cookies_accepted items \<Longrightarrow> simple_cookie_load items = Returns ()"
    by (simp add: simple_cookie_load_def)
qed

lemma simple_cookie_load_bad:
  "\<not> cookies_accepted items \<Longrightarrow> simple_cookie_load items = Raises CookieError"
proof -
  have "\<not> cookies_accepted items \<Longrightarrow>
      collect (\<lambda>item. morsel_set (fst item)) items = Raises CookieError"
  proof (induction items)
    case Nil
    then show ?case by (simp add: cookies_accepted_def)
  next
    case (Cons item items)
    show ?case
    proof (cases "cookie_name_ok (fst item)")
      case True
      then have "\<not> cookies_accepted items"
        using Cons.prems by (simp add: cookies_accepted_def)
      then have "collect (\<lambda>item. morsel_set (fst item)) items = Raises CookieError"
        by (rule Cons.IH)
      then show ?thesis by (simp add: morsel_set_ok[OF True])
    next
      case False
      then show ?thesis by (simp add: morsel_set_bad)
    qed
  qed
  then show "\<not> cookies_accepted items \<Longrightarrow> simple_cookie_load items = Raises CookieError"
    by (simp add: simple_cookie_load_def)
qed

lemma cookie_headers_ok:
  "cookies_accepted (cookies response) \<Longrightarrow>
     cookie_headers response
       = Returns (map (\<lambda>item. (''set-cookie'', snd item)) (cookies response))"
  by (simp add: cookie_headers_def simple_cookie_load_ok)

lemma cookie_headers_bad:
  "\<not> cookies_accepted (cookies response) \<Longrightarrow> cookie_headers response = Raises CookieError"
  by (auto simp: cookie_headers_def simple_cookie_load_bad cookies_accepted_def)

lemma cookie_name_examples:
  "cookie_name_ok (lit ''session'')"
  "\<not> cookie_name_ok (lit ''Path'')"
  by (simp_all add: cookie_name_ok_def is_legal_key_def reserved_def legal_chars_def lit_def
        lower_ascii_def)

lemma write_response_buffered:
  "\<not> cimultidict_contains hs (lit ''content-length'') \<Longrightarrow> cookies_accepted cs \<Longrightarrow>
     write_response (HTTPResponse st hs cs B) hdrs self =
       (Returns (),
        self\<lparr>transport := (transport self)\<lparr>sent := sent (transport self) @
          [HttpResponseStart st
             (hdrs @ [(''content-length'', digits (length B))]
              @ map (\<lambda>item. (''set-cookie'', snd item)) cs),
           HttpResponseBody B False]\<rparr>\<rparr>)"
  by (simp add: write_response_def content_length_header_def is_streaming_def encode_str_nat
        cookie_headers_ok write_body_def transport_send_def)

text \<open>
  Claim C1, amended. For every non-streaming response whose headers have no
  \<open>content-length\<close> key, whose header names and values are Latin-1 text and whose
  cookie names \<open>SimpleCookie\<close> accepts,
  \<open>stream_callback\<close> returns having sent exactly two events: one \<open>http.response.start\<close>
  with the response's status and the header list made of the encoded headers, a
  \<open>content-length\<close> entry and one \<open>set-cookie\<close> entry per cookie, then one
  \<open>http.response.body\<close> with the buffered body and \<open>more_body\<close> false. The value of the
  \<open>content-length\<close> entry is the decimal numeral of the body's length.
\<close>

theorem buffered_response_events:
  assumes "\<not> cimultidict_contains hs (lit ''content-length'')" and "encodable_headers hs"
    and "cookies_accepted cs"
  shows "stream_callback (HTTPResponse st hs cs B) self =
           (Returns (),
            self\<lparr>transport := (transport self)\<lparr>sent := sent (transport self) @
              [HttpResponseStart st
                 (encoded_headers hs @ [(''content-length'', digits (length B))]
                  @ map (\<lambda>item. (''set-cookie'', snd item)) cs),
               HttpResponseBody B False]\<rparr>\<rparr>)
         \<and> decimal_value (digits (length B)) = length B"
  using assms
  by (simp add: stream_callback_def has_headers_def encode_headers_ok write_response_buffered
        decimal_value_digits)

lemma char_of_lit [simp]: "map char_of (lit a) = a"
  by (simp add: lit_def comp_def)

lemma digits_example:
  "digits (length ''hello world!'') = ''12''"
  "digits (length ''Error'') = ''5''"
proof -
  have "length ''hello world!'' = 12" "length ''Error'' = 5" by simp_all
  then show "digits (length ''hello world!'') = ''12''" "digits (length ''Error'') = ''5''"
    by (simp_all only: digits.simps[of 12] digits.simps[of 5] digits.simps[of "12 div 10"])
       (simp_all add: digit_def)
qed

lemma lower_lit_examples:
  "map lower_ascii (lit ''content-length'') = lit ''content-length''"
  "map lower_ascii (lit ''Content-Type'') = lit ''content-type''"
  "map lower_ascii (lit ''Set-Cookie'') = lit ''set-cookie''"
  "map lower_ascii (lit ''x-name'') = lit ''x-name''"
  by (simp_all add: lit_def lower_ascii_def)

theorem buffered_response_events_witness:
  "\<not> cimultidict_contains [(lit ''Content-Type'', lit ''text/plain'')] (lit ''content-length'')
   \<and> encodable_headers [(lit ''Content-Type'', lit ''text/plain'')]
   \<and> cookies_accepted [(lit ''session'', ''session=abc; Path=/'')]
   \<and> stream_callback
        (HTTPResponse 200 [(lit ''Content-Type'', lit ''text/plain'')]
           [(lit ''session'', ''session=abc; Path=/'')] ''hello world!'')
        (example_instance [])
       = (Returns (),
          (example_instance [])\<lparr>transport := (transport (example_instance []))\<lparr>sent :=
            [HttpResponseStart 200
               [(''Content-Type'', ''text/plain''), (''content-length'', ''12''),
                (''set-cookie'', ''session=abc; Path=/'')],
             HttpResponseBody ''hello world!'' False]\<rparr>\<rparr>)
   \<and> decimal_value ''12'' = 12"
  using buffered_response_events
      [where hs = "[(lit ''Content-Type'', lit ''text/plain'')]" and st = 200
         and cs = "[(lit ''session'', ''session=abc; Path=/'')]" and B = "''hello world!''"
         and self = "example_instance []"]
  by (simp add: cimultidict_contains_def ci_eq_def lower_lit_examples encodable_headers_def
        encoded_headers_def digits_example example_instance_def decimal_value_def
        cookies_accepted_def cookie_name_examples
        del: list.size)

text \<open>
  Claim C1 as stated fails: a non-streaming response with the one header \<open>x-name\<close> of
  value U+20AC has no \<open>content-length\<close> key, and on it \<open>stream_callback\<close> raises
  \<open>UnicodeEncodeError\<close> without sending any event. So it does, with \<open>CookieError\<close>, on
  a response without headers that carries a cookie named \<open>Path\<close>.
\<close>

theorem buffered_response_events_counterexample:
  "\<not> cimultidict_contains [(lit ''x-name'', [8364])] (lit ''content-length'')
   \<and> stream_callback (HTTPResponse 200 [(lit ''x-name'', [8364])] [] ''hi'') (example_instance [])
       = (Raises UnicodeEncodeError, example_instance [])
   \<and> \<not> cimultidict_contains [] (lit ''content-length'')
   \<and> stream_callback (HTTPResponse 200 [] [(lit ''Path'', ''Path=v'')] ''hi'') (example_instance [])
       = (Raises CookieError, example_instance [])
   \<and> sent (transport (example_instance [])) = []"
proof -
  have "\<not> encodable_headers [(lit ''x-name'', [8364])]"
    by (simp add: encodable_headers_def)
  then have h: "encode_headers [(lit ''x-name'', [8364])] = Raises UnicodeEncodeError"
    by (rule encode_headers_bad)
  have "\<not> cookies_accepted (cookies (HTTPResponse 200 [] [(lit ''Path'', ''Path=v'')] ''hi''))"
    by (simp add: cookies_accepted_def cookie_name_examples)
  then have c: "cookie_headers (HTTPResponse 200 [] [(lit ''Path'', ''Path=v'')] ''hi'')
      = Raises CookieError"
    by (rule cookie_headers_bad)
  have e: "encode_headers [] = Returns []"
    by (simp add: encode_headers_def)
  have "stream_callback (HTTPResponse 200 [(lit ''x-name'', [8364])] [] ''hi'') (example_instance [])
       = (Raises UnicodeEncodeError, example_instance [])"
    by (simp add: stream_callback_def has_headers_def h)
  moreover have "stream_callback (HTTPResponse 200 [] [(lit ''Path'', ''Path=v'')] ''hi'')
      (example_instance []) = (Raises CookieError, example_instance [])"
    by (simp add: stream_callback_def has_headers_def e c write_response_def
          content_length_header_def is_streaming_def encode_str_nat cimultidict_contains_def)
  ultimately show ?thesis
    by (simp add: cimultidict_contains_def ci_eq_def lower_lit_examples example_instance_def)
qed

text \<open>
  Claim C2 against the code. When the object given to \<open>stream_callback\<close> has no
  \<open>headers\<close> attribute, the anomaly is logged and the error handler's response is
  substituted, but no header of it is excluded: the comprehension compares each header
  name, a \<open>str\<close>, with the \<open>bytes\<close> value \<open>b"Set-Cookie"\<close>, and the two are never
  equal. So the start event carries every header of the substituted response, its
  \<open>Set-Cookie\<close> headers included (here for a buffered substitute with Latin-1 headers,
  no \<open>content-length\<close> and cookie names \<open>SimpleCookie\<close> accepts).
\<close>

theorem invalid_response_keeps_set_cookie:
  assumes "request self = Some r"
    and "error_handler_response (sanic_app self) r = HTTPResponse st hs cs B"
    and "\<not> cimultidict_contains hs (lit ''content-length'')" and "encodable_headers hs"
    and "cookies_accepted cs"
  shows "stream_callback NotAResponse self =
           (Returns (),
            self\<lparr>transport := (transport self)\<lparr>sent := sent (transport self) @
              [HttpResponseStart st
                 (encoded_headers hs @ [(''content-length'', digits (length B))]
                  @ map (\<lambda>item. (''set-cookie'', snd item)) cs),
               HttpResponseBody B False]\<rparr>,
              error_log := error_log self @ [req_url r]\<rparr>)
         \<and> encode_headers_fallback hs = encode_headers hs"
  using assms
  by (simp add: stream_callback_def has_headers_def Let_def encode_headers_fallback_eq
        encode_headers_ok write_response_buffered)

theorem invalid_response_keeps_set_cookie_witness:
  "request (example_instance []) = Some example_request
   \<and> error_handler_response (sanic_app (example_instance [])) example_request
       = HTTPResponse 500 [(lit ''Set-Cookie'', lit ''k=v'')] [] ''Error''
   \<and> \<not> cimultidict_contains [(lit ''Set-Cookie'', lit ''k=v'')] (lit ''content-length'')
   \<and> encodable_headers [(lit ''Set-Cookie'', lit ''k=v'')]
   \<and> cookies_accepted []
   \<and> stream_callback NotAResponse (example_instance [])
       = (Returns (),
          (example_instance [])\<lparr>transport := (transport (example_instance []))\<lparr>sent :=
            [HttpResponseStart 500 [(''Set-Cookie'', ''k=v''), (''content-length'', ''5'')],
             HttpResponseBody ''Error'' False]\<rparr>,
            error_log := [''/a%20b%C3%A9?x=1'']\<rparr>)"
  using invalid_response_keeps_set_cookie
      [of "example_instance []" example_request 500 "[(lit ''Set-Cookie'', lit ''k=v'')]" "[]"
          "''Error''"]
  by (simp add: cimultidict_contains_def ci_eq_def lower_lit_examples encodable_headers_def
        encoded_headers_def digits_example example_instance_def example_app_def
        example_request_def Request_def cookies_accepted_def del: list.size)

lemma is_complete_simps [simp]:
  "is_complete (transport_send e t) = is_complete t"
  "is_complete (get_protocol t) = is_complete t"
  "is_complete (pause_writing t) = is_complete t"
  "is_complete (resume_writing t) = is_complete t"
  "is_complete (complete t) = is_complete t"
  by (simp_all add: is_complete_def the_protocol_def transport_send_def get_protocol_def
        pause_writing_def resume_writing_def complete_def split: option.splits)

lemma sent_simps [simp]:
  "sent (transport_send e t) = sent t @ [e]"
  "sent (get_protocol t) = sent t"
  "sent (pause_writing t) = sent t"
  "sent (resume_writing t) = sent t"
  "sent (complete t) = sent t @ [HttpResponseBody [] False]"
  by (simp_all add: transport_send_def get_protocol_def pause_writing_def resume_writing_def
        complete_def)

lemma push_data_sent:
  "\<not> is_complete t \<Longrightarrow> sent (push_data d t) = sent t @ [HttpResponseBody d True]"
  "is_complete (push_data d t) = is_complete t"
  by (simp_all add: push_data_def)

lemma run_stream_sent:
  "\<not> is_complete t \<Longrightarrow> run_stream calls t = (Returns (), t') \<Longrightarrow>
     sent t' = sent t @ map (\<lambda>d. HttpResponseBody d True) (pushed calls)
     \<and> \<not> is_complete t'"
proof (induction calls t rule: run_stream.induct)
  case (1 t)
  then show ?case by (simp add: pushed_def)
next
  case (2 d cs t)
  then show ?case by (simp add: pushed_def push_data_sent)
next
  case (3 cs t)
  then show ?case by (simp add: pushed_def split: outcome.splits)
next
  case (4 cs t)
  then show ?case by (simp add: pushed_def)
next
  case (5 cs t)
  then show ?case by (simp add: pushed_def)
qed

text \<open>
  Claim C4 against the code. When \<open>stream_callback\<close> returns on a streaming response
  (on a protocol not marked complete), it has sent one \<open>http.response.start\<close>, one
  \<open>http.response.body\<close> with \<open>more_body\<close> true per chunk pushed, in order, and the
  terminal empty \<open>http.response.body\<close> with \<open>more_body\<close> false. But \<open>complete\<close> does not
  set the flag \<open>is_complete\<close> reads, so a later \<open>push_data\<close> still sends: an event
  follows the terminal one.
\<close>

theorem push_data_after_complete:
  assumes "stream_callback (StreamingHTTPResponse st hs cs calls) self = (Returns (), self')"
    and "\<not> is_complete (transport self)"
  shows "sent (transport self') =
           sent (transport self)
           @ [HttpResponseStart st (encoded_headers hs @ map (\<lambda>item. (''set-cookie'', snd item)) cs)]
           @ map (\<lambda>d. HttpResponseBody d True) (pushed calls)
           @ [HttpResponseBody [] False]
         \<and> sent (push_data late (transport self')) =
             sent (transport self') @ [HttpResponseBody late True]"
proof -
  let ?r = "StreamingHTTPResponse st hs cs calls"
  have enc: "encodable_headers hs"
  proof (rule ccontr)
    assume "\<not> encodable_headers hs"
    then have "encode_headers hs = Raises UnicodeEncodeError" by (rule encode_headers_bad)
    then show False using assms(1) by (simp add: stream_callback_def has_headers_def)
  qed
  let ?start = "HttpResponseStart st (encoded_headers hs @ map (\<lambda>item. (''set-cookie'', snd item)) cs)"
  let ?t0 = "get_protocol (transport_send ?start (transport self))"
  have acc: "cookies_accepted (cookies ?r)"
  proof (rule ccontr)
    assume "\<not> cookies_accepted (cookies ?r)"
    then have "cookie_headers ?r = Raises CookieError" by (rule cookie_headers_bad)
    then show False
      using assms(1)
      by (simp add: stream_callback_def has_headers_def encode_headers_ok[OF enc]
            write_response_def content_length_header_def is_streaming_def)
  qed
  have ck: "cookie_headers ?r = Returns (map (\<lambda>item. (''set-cookie'', snd item)) cs)"
    using cookie_headers_ok[OF acc] by simp
  have wr: "stream_callback ?r self =
      (case run_stream calls ?t0 of
         (Returns u, t') \<Rightarrow> (Returns (), self\<lparr>transport := complete t'\<rparr>)
       | (Raises e, t') \<Rightarrow> (Raises e, self\<lparr>transport := t'\<rparr>)
       | (Suspends, t') \<Rightarrow> (Suspends, self\<lparr>transport := t'\<rparr>))"
    by (simp add: stream_callback_def has_headers_def encode_headers_ok[OF enc] write_response_def
          content_length_header_def is_streaming_def ck write_body_def
          split: prod.splits outcome.splits)
  obtain t' where rs: "run_stream calls ?t0 = (Returns (), t')" and s': "self' = self\<lparr>transport := complete t'\<rparr>"
    using assms(1) unfolding wr by (auto split: prod.splits outcome.splits)
  have nc: "\<not> is_complete ?t0" using assms(2) by simp
  have st: "sent t' = sent ?t0 @ map (\<lambda>d. HttpResponseBody d True) (pushed calls)"
    and nc': "\<not> is_complete t'"
    using run_stream_sent[OF nc rs] by simp_all
  show ?thesis
    using st nc' by (simp add: s' push_data_sent)
qed

theorem push_data_after_complete_witness:
  "stream_callback (StreamingHTTPResponse 200 [] [] [PushData ''a'', Drain, PushData ''b''])
      (example_instance [])
     = (Returns (),
        (example_instance [])\<lparr>transport := (transport (example_instance []))
           \<lparr>sent := [HttpResponseStart 200 [], HttpResponseBody ''a'' True,
                     HttpResponseBody ''b'' True, HttpResponseBody [] False],
            t_protocol := Some \<lparr>p_not_paused = True, p_complete = False\<rparr>\<rparr>\<rparr>)
   \<and> \<not> is_complete (transport (example_instance []))
   \<and> sent (push_data ''late''
        (transport (snd (stream_callback
           (StreamingHTTPResponse 200 [] [] [PushData ''a'', Drain, PushData ''b''])
           (example_instance [])))))
     = [HttpResponseStart 200 [], HttpResponseBody ''a'' True, HttpResponseBody ''b'' True,
        HttpResponseBody [] False, HttpResponseBody ''late'' True]"
proof -
  have c: "stream_callback (StreamingHTTPResponse 200 [] [] [PushData ''a'', Drain, PushData ''b''])
      (example_instance [])
     = (Returns (),
        (example_instance [])\<lparr>transport := (transport (example_instance []))
           \<lparr>sent := [HttpResponseStart 200 [], HttpResponseBody ''a'' True,
                     HttpResponseBody ''b'' True, HttpResponseBody [] False],
            t_protocol := Some \<lparr>p_not_paused = True, p_complete = False\<rparr>\<rparr>\<rparr>)"
    by (simp add: stream_callback_def has_headers_def encode_headers_def write_response_def
          content_length_header_def is_streaming_def cookie_headers_def write_body_def
          example_instance_def transport_send_def get_protocol_def the_protocol_def
          push_data_def is_complete_def drain_def complete_def)
  have n: "\<not> is_complete (transport (example_instance []))"
    by (simp add: is_complete_def the_protocol_def example_instance_def)
  show ?thesis
    using push_data_after_complete [OF c n, of "''late''"]
    by (simp add: c n)
qed

section \<open>Streaming ingestion\<close>


text \<open>
  Without a stream on the request (the application is not configured for streaming
  request bodies), the first \<open>put\<close> of \<open>stream_body\<close> raises, one event having been
  received. With a stream that has no room for the chunks and the end marker,
  \<open>stream_body\<close> does not return.
\<close>

lemma stream_body_without_stream:
  "inbox (transport self) = m # ms \<Longrightarrow> request self = Some r \<Longrightarrow> req_stream r = None \<Longrightarrow>
     stream_body self =
       (Raises AttributeError, self\<lparr>transport := (transport self)\<lparr>inbox := ms\<rparr>\<rparr>)"
  by (simp add: stream_body_def)

lemma stream_body_when_full:
  assumes "request self = Some r" and "req_stream r = Some q"
    and "ends_body (inbox (transport self))"
    and "\<not> has_room q (length (consumed (inbox (transport self))) + 1)"
  shows "fst (stream_body self) = Suspends"
proof -
  let ?evs = "inbox (transport self)"
  have ex: "list_ex (\<lambda>m. \<not> get_more_body m) ?evs"
    using assms(3) by (rule ends_body_has_last)
  obtain m ms where evs: "?evs = m # ms"
    using assms(3) by (cases ?evs) (simp_all add: ends_body_def)
  show ?thesis
  proof (cases "has_room q (length (consumed ?evs))")
    case True
    let ?q' = "q\<lparr>sb_queue := sb_queue q @ map (\<lambda>m. Some (get_body m)) (consumed ?evs)\<rparr>"
    have loop: "stream_body_loop q (m # ms) = (Returns (), ?q', unconsumed ?evs)"
      using stream_body_loop_eq[OF ex True] by (simp add: evs)
    have "\<not> has_room ?q' (Suc 0)"
      using assms(4) by (simp add: has_room_def)
    then have "stream_put None ?q' = (Suspends, ?q')"
      by (rule stream_put_full)
    then show ?thesis
      unfolding stream_body_def using assms(1,2)
      by (simp add: evs loop del: stream_body_loop.simps)
  next
    case False
    have "fst (stream_body_loop q (m # ms)) = Suspends"
      using stream_body_loop_full[OF ex False] by (simp add: evs)
    then obtain q' rest where "stream_body_loop q (m # ms) = (Suspends, q', rest)"
      by (cases "stream_body_loop q (m # ms)") auto
    then show ?thesis
      unfolding stream_body_def using assms(1,2)
      by (simp add: evs del: stream_body_loop.simps)
  qed
qed




end
